theory Spec2Isabelle
  imports Complex_Main
begin

section \<open>Data model\<close>

text \<open>
  A route segment is the dictionary that \<^verbatim>\<open>views.py\<close> passes around (keys
  \<^verbatim>\<open>type\<close>, \<^verbatim>\<open>start_location\<close>, \<^verbatim>\<open>end_location\<close>, \<^verbatim>\<open>distance_miles\<close>,
  \<^verbatim>\<open>estimated_drive_time\<close>) and, once saved, the \<^verbatim>\<open>RouteSegment\<close> row of
  \<^verbatim>\<open>models.py\<close>, whose column for the kind is \<^verbatim>\<open>segment_type\<close>.
  Python numbers are modelled as exact rationals: the rounding of binary floating point is
  not part of the model.
\<close>

record segment =
  segment_type :: string
  start_location :: string
  end_location :: string
  distance_miles :: rat
  estimated_drive_time :: rat

text \<open>
  The exceptions that the modelled code can raise: by its own arithmetic, by the date
  arithmetic of \<^verbatim>\<open>datetime\<close>, by the geocoder and by the database.
\<close>

datatype py_error =
  ZeroDivisionError | OverflowError | GeocoderError string | DatabaseError string

section \<open>\<^verbatim>\<open>HOSCalculator.__init__\<close> (hos_utils.py)\<close>

record hos_calculator =
  current_hours_used :: rat
  driving_hours_left :: rat
  duty_window_left :: rat
  cycle_hours_left :: rat
  time_since_last_break :: rat

definition HOSCalculator_init :: "rat \<Rightarrow> hos_calculator" where
  "HOSCalculator_init chu =
     \<lparr> current_hours_used = chu,
       driving_hours_left = 11 - chu,
       duty_window_left = 14 - chu,
       cycle_hours_left = 70 - chu,
       time_since_last_break = 0 \<rparr>"

definition can_drive :: "hos_calculator \<Rightarrow> rat \<Rightarrow> bool" where
  "can_drive self hours =
     (if hours \<le> 0 then True
      else if driving_hours_left self \<le> 0 \<or> duty_window_left self \<le> 0 then False
      else if time_since_last_break self \<ge> 8 then False
      else hours \<le> driving_hours_left self)"

section \<open>\<^verbatim>\<open>TripViewSet.add_fuel_stops\<close> (views.py)\<close>

definition fuel_stop_name :: "string \<Rightarrow> string \<Rightarrow> string" where
  "fuel_stop_name cur dest = ''Fuel Stop ('' @ cur @ '' to '' @ dest @ '')''"

text \<open>
  The inner \<^verbatim>\<open>while remaining_distance > 1000\<close> loop. Its state is the current location,
  the remaining distance and the result list.
\<close>

function fuel_loop :: "segment \<Rightarrow> string \<Rightarrow> rat \<Rightarrow> segment list \<Rightarrow> string \<times> rat \<times> segment list" where
  "fuel_loop seg current_location remaining_distance result_segments =
     (if remaining_distance > 1000 then
        (let fuel_stop_location = fuel_stop_name current_location (end_location seg) in
         fuel_loop seg fuel_stop_location (remaining_distance - 1000)
           (result_segments @
            [\<lparr> segment_type = ''driving'', start_location = current_location,
               end_location = fuel_stop_location, distance_miles = 1000,
               estimated_drive_time = 1000 / 60 \<rparr>,
             \<lparr> segment_type = ''fuel'', start_location = fuel_stop_location,
               end_location = fuel_stop_location, distance_miles = 0,
               estimated_drive_time = 1 / 2 \<rparr>]))
      else (current_location, remaining_distance, result_segments))"
  by pat_completeness auto
termination
proof (relation "measure (\<lambda>(seg, cur, r, res). nat \<lceil>r / 1000\<rceil>)", goal_cases)
  case 1
  show ?case by simp
next
  case (2 seg cur r res loc)
  have "\<lceil>(r - 1000) / 1000\<rceil> = \<lceil>r / 1000\<rceil> - 1"
    by (simp add: diff_divide_distrib)
  moreover from 2 have "0 < \<lceil>r / 1000\<rceil>"
    by (simp add: ceiling_less_iff)
  ultimately show ?case by simp
qed

text \<open>The body of the \<^verbatim>\<open>for segment in segments\<close> loop: the result list before and after one leg.\<close>

definition add_fuel_stops_body :: "segment list \<Rightarrow> segment \<Rightarrow> segment list" where
  "add_fuel_stops_body result_segments seg =
     (if segment_type seg = ''driving'' \<and> distance_miles seg > 1000 then
        (case fuel_loop seg (start_location seg) (distance_miles seg) result_segments of
           (current_location, remaining_distance, result_segments') \<Rightarrow>
             (if remaining_distance > 0 then
                result_segments' @
                [\<lparr> segment_type = ''driving'', start_location = current_location,
                   end_location = end_location seg, distance_miles = remaining_distance,
                   estimated_drive_time = remaining_distance / 60 \<rparr>]
              else result_segments'))
      else result_segments @ [seg])"

definition add_fuel_stops :: "segment list \<Rightarrow> segment list" where
  "add_fuel_stops segments = foldl add_fuel_stops_body [] segments"

section \<open>\<^verbatim>\<open>TripViewSet.apply_hos_regulations\<close> (views.py)\<close>

record hos_state =
  result_segments :: "segment list"
  hours_driving :: rat
  hours_duty :: rat
  cycle_hours :: rat
  hours_since_break :: rat
  segment_queue :: "segment list"

definition hos_init :: "segment list \<Rightarrow> rat \<Rightarrow> hos_state" where
  "hos_init segments chu =
     \<lparr> result_segments = [], hours_driving = 0, hours_duty = 0, cycle_hours = chu,
       hours_since_break = 0, segment_queue = segments \<rparr>"

definition rest_stop_name :: "string \<Rightarrow> string \<Rightarrow> string" where
  "rest_stop_name a b = ''Rest Stop ('' @ a @ '' to '' @ b @ '')''"

text \<open>
  One iteration of \<^verbatim>\<open>while segment_queue:\<close> for the popped leg \<open>seg\<close>, with \<open>s\<close> the
  state after \<^verbatim>\<open>segment_queue.pop(0)\<close>. The only operation that can raise is the
  division in the split branch.
\<close>

definition hos_body :: "segment \<Rightarrow> hos_state \<Rightarrow> py_error + hos_state" where
  "hos_body seg s =
     (if segment_type seg = ''driving'' then
        (if hours_since_break s \<ge> 8 then
           (let break_location = start_location seg in
            Inr (s\<lparr> result_segments := result_segments s @
                      [\<lparr> segment_type = ''break'', start_location = break_location,
                         end_location = break_location, distance_miles = 0,
                         estimated_drive_time = 1 / 2 \<rparr>],
                    hours_since_break := 0,
                    hours_duty := hours_duty s + 1 / 2,
                    cycle_hours := cycle_hours s + 1 / 2,
                    segment_queue := seg # segment_queue s \<rparr>))
         else
           (let remaining_drive_time = 11 - hours_driving s in
            if estimated_drive_time seg > remaining_drive_time then
              (if estimated_drive_time seg = 0 then Inl ZeroDivisionError
               else
                 (let partial_distance =
                        (remaining_drive_time / estimated_drive_time seg) * distance_miles seg;
                      partial_location = rest_stop_name (start_location seg) (end_location seg);
                      remaining_distance = distance_miles seg - partial_distance;
                      remaining_time = estimated_drive_time seg - remaining_drive_time
                  in Inr (s\<lparr> result_segments := result_segments s @
                              [\<lparr> segment_type = ''driving'', start_location = start_location seg,
                                 end_location = partial_location, distance_miles = partial_distance,
                                 estimated_drive_time = remaining_drive_time \<rparr>,
                               \<lparr> segment_type = ''rest'', start_location = partial_location,
                                 end_location = partial_location, distance_miles = 0,
                                 estimated_drive_time = 10 \<rparr>],
                            hours_driving := 0,
                            hours_duty := 0,
                            cycle_hours := cycle_hours s + remaining_drive_time,
                            hours_since_break := 0,
                            segment_queue :=
                              \<lparr> segment_type = ''driving'', start_location = partial_location,
                                end_location = end_location seg, distance_miles = remaining_distance,
                                estimated_drive_time = remaining_time \<rparr> # segment_queue s \<rparr>)))
            else if hours_duty s + estimated_drive_time seg > 14 then
              (let break_location = start_location seg in
               Inr (s\<lparr> result_segments := result_segments s @
                         [\<lparr> segment_type = ''rest'', start_location = break_location,
                            end_location = break_location, distance_miles = 0,
                            estimated_drive_time = 10 \<rparr>],
                       hours_driving := 0,
                       hours_duty := 0,
                       hours_since_break := 0,
                       segment_queue := seg # segment_queue s \<rparr>))
            else
              Inr (s\<lparr> result_segments := result_segments s @ [seg],
                      hours_driving := hours_driving s + estimated_drive_time seg,
                      hours_duty := hours_duty s + estimated_drive_time seg,
                      cycle_hours := cycle_hours s + estimated_drive_time seg,
                      hours_since_break := hours_since_break s + estimated_drive_time seg \<rparr>)))
      else if segment_type seg \<in> set [''rest'', ''break''] then
        (if estimated_drive_time seg \<ge> 10 then
           Inr (s\<lparr> result_segments := result_segments s @ [seg],
                   hours_driving := 0, hours_duty := 0, hours_since_break := 0 \<rparr>)
         else if estimated_drive_time seg \<ge> 1 / 2 then
           Inr (s\<lparr> result_segments := result_segments s @ [seg],
                   hours_since_break := 0,
                   hours_duty := hours_duty s + estimated_drive_time seg,
                   cycle_hours := cycle_hours s + estimated_drive_time seg \<rparr>)
         else
           Inr (s\<lparr> result_segments := result_segments s @ [seg],
                   hours_duty := hours_duty s + estimated_drive_time seg,
                   cycle_hours := cycle_hours s + estimated_drive_time seg \<rparr>))
      else
        Inr (s\<lparr> result_segments := result_segments s @ [seg],
                hours_duty := hours_duty s + estimated_drive_time seg,
                cycle_hours := cycle_hours s + estimated_drive_time seg \<rparr>))"

text \<open>
  The loop: \<^verbatim>\<open>while segment_queue: segment = segment_queue.pop(0); ...\<close>. A run that
  never leaves the loop has the value \<open>None\<close>; a run that raises has the value
  \<open>Some (Inl e)\<close>.
\<close>

partial_function (option) hos_loop :: "hos_state \<Rightarrow> (py_error + segment list) option" where
  "hos_loop s =
     (case segment_queue s of
        [] \<Rightarrow> Some (Inr (result_segments s))
      | seg # rest \<Rightarrow>
          (case hos_body seg (s\<lparr> segment_queue := rest \<rparr>) of
             Inl e \<Rightarrow> Some (Inl e)
           | Inr s' \<Rightarrow> hos_loop s'))"

declare hos_loop.simps [code]

definition apply_hos_regulations :: "segment list \<Rightarrow> rat \<Rightarrow> (py_error + segment list) option" where
  "apply_hos_regulations segments chu = hos_loop (hos_init segments chu)"

section \<open>\<^verbatim>\<open>TripViewSet.generate_logs\<close> (views.py)\<close>

text \<open>
  A \<^verbatim>\<open>datetime\<close> is a whole number of microseconds since midnight of day 0, a
  \<^verbatim>\<open>date\<close> a day number and a \<^verbatim>\<open>time\<close> the microseconds since midnight.
  \<^verbatim>\<open>timedelta(hours=h)\<close> rounds to the nearest microsecond, ties to even; the
  product of the hours and the microseconds of an hour is taken exactly here, where Python
  multiplies in double precision first. Day 0 is the first date of Python, 1 January of
  year 1; the functions of this section do not check the range of dates, which
  \<open>generate_logs_saving\<close> below does.
\<close>

definition usec_per_second :: int where "usec_per_second = 1000000"
definition usec_per_hour :: int where "usec_per_hour = 3600000000"
definition usec_per_day :: int where "usec_per_day = 86400000000"

definition dt_date :: "int \<Rightarrow> int" where
  "dt_date t = t div usec_per_day"

definition dt_time :: "int \<Rightarrow> int" where
  "dt_time t = t mod usec_per_day"

definition round_half_even :: "rat \<Rightarrow> int" where
  "round_half_even x =
     (let f = \<lfloor>x\<rfloor>; r = x - of_int f in
      if r < 1 / 2 then f else if r > 1 / 2 then f + 1 else if even f then f else f + 1)"

definition timedelta_hours :: "rat \<Rightarrow> int" where
  "timedelta_hours h = round_half_even (h * of_int usec_per_hour)"

definition datetime_combine_min :: "int \<Rightarrow> int" where
  "datetime_combine_min d = d * usec_per_day"

record log_entry =
  date :: int
  status :: string
  start_time :: int
  end_time :: int
  location :: string

definition segment_type_to_status :: "string \<Rightarrow> string" where
  "segment_type_to_status t =
     (case map_of
        [(''driving'', ''driving''),
         (''rest'', ''off_duty''),
         (''pickup'', ''on_duty_not_driving''),
         (''dropoff'', ''on_duty_not_driving''),
         (''fuel'', ''on_duty_not_driving''),
         (''break'', ''off_duty'')] t of
        Some v \<Rightarrow> v
      | None \<Rightarrow> ''on_duty_not_driving'')"

text \<open>The loop \<^verbatim>\<open>for _ in range(remaining_days)\<close>, from \<open>current_date\<close> on.\<close>

fun full_day_entries :: "string \<Rightarrow> string \<Rightarrow> int \<Rightarrow> nat \<Rightarrow> log_entry list" where
  "full_day_entries st loc current_date 0 = []"
| "full_day_entries st loc current_date (Suc n) =
     (let next_midnight = datetime_combine_min (current_date + 1);
          next_midnight_minus_1sec = next_midnight - usec_per_second
      in \<lparr> date = current_date, status = st, start_time = 0,
           end_time = dt_time next_midnight_minus_1sec, location = loc \<rparr>
         # full_day_entries st loc (current_date + 1) n)"

text \<open>
  The body of \<^verbatim>\<open>for segment in segments\<close>: the log entries created for one segment
  that starts at \<open>current_datetime\<close>, and the new \<open>current_datetime\<close>.
\<close>

definition generate_logs_body :: "int \<Rightarrow> segment \<Rightarrow> log_entry list \<times> int" where
  "generate_logs_body current_datetime seg =
     (let st = segment_type_to_status (segment_type seg);
          start_datetime = current_datetime;
          end_datetime = start_datetime + timedelta_hours (estimated_drive_time seg)
      in
        (if dt_date start_datetime = dt_date end_datetime then
           [\<lparr> date = dt_date start_datetime, status = st,
              start_time = dt_time start_datetime, end_time = dt_time end_datetime,
              location = start_location seg \<rparr>]
         else
           (let midnight = datetime_combine_min (dt_date start_datetime + 1);
                midnight_minus_1sec = midnight - usec_per_second;
                current_date = dt_date start_datetime + 1;
                remaining_days = dt_date end_datetime - current_date
            in
              \<lparr> date = dt_date start_datetime, status = st,
                start_time = dt_time start_datetime, end_time = dt_time midnight_minus_1sec,
                location = start_location seg \<rparr>
              # full_day_entries st (start_location seg) current_date (nat remaining_days)
              @ [\<lparr> date = dt_date end_datetime, status = st,
                   start_time = 0, end_time = dt_time end_datetime,
                   location = start_location seg \<rparr>]),
         end_datetime))"

fun generate_logs_loop :: "int \<Rightarrow> segment list \<Rightarrow> log_entry list" where
  "generate_logs_loop current_datetime [] = []"
| "generate_logs_loop current_datetime (seg # segs) =
     (case generate_logs_body current_datetime seg of
        (entries, end_datetime) \<Rightarrow> entries @ generate_logs_loop end_datetime segs)"

text \<open>
  \<open>now\<close> is the value of \<^verbatim>\<open>datetime.now()\<close>; the segments are the trip's rows in
  order of id, that is in the order in which they were saved.
\<close>

definition generate_logs :: "int \<Rightarrow> segment list \<Rightarrow> log_entry list" where
  "generate_logs now segments =
     generate_logs_loop (now - now mod usec_per_hour) segments"

section \<open>\<^verbatim>\<open>TripViewSet.apply_hos_regulations\<close> in double precision\<close>

text \<open>
  Python computes with IEEE 754 binary64 numbers. \<open>round_double\<close> rounds an exact result
  to the nearest such number, ties to even, with the fixed spacing of the subnormal range
  below \<open>2^-1022\<close>. A result beyond the largest double, which Python turns into an
  infinity, is outside this model: the exponent is not bounded above.
  \<open>exponent_up x\<close> is the exponent of a number \<open>x \<ge> 1\<close>, \<open>exponent_down x\<close> that of a
  positive number below 1.
\<close>

definition pow2 :: "int \<Rightarrow> rat" where
  "pow2 e = (if e \<ge> 0 then 2 ^ nat e else 1 / 2 ^ nat (- e))"

function exponent_up :: "rat \<Rightarrow> int" where
  "exponent_up x = (if x \<ge> 2 then exponent_up (x / 2) + 1 else 0)"
  by pat_completeness auto
termination
proof (relation "measure (\<lambda>x. nat \<lfloor>x\<rfloor>)", goal_cases)
  case 1
  show ?case by simp
next
  case (2 x)
  then have "x / 2 \<le> x - 1" by simp
  then have "\<lfloor>x / 2\<rfloor> \<le> \<lfloor>x - 1\<rfloor>" by (rule floor_mono)
  moreover from 2 have "0 < \<lfloor>x\<rfloor>" by simp
  ultimately show ?case by simp
qed

function exponent_down :: "rat \<Rightarrow> int" where
  "exponent_down x = (if 0 < x \<and> x < 1 then exponent_down (2 * x) - 1 else 0)"
  by pat_completeness auto
termination
proof (relation "measure (\<lambda>x. nat \<lceil>1 / x\<rceil>)", goal_cases)
  case 1
  show ?case by simp
next
  case (2 x)
  let ?y = "1 / x"
  from 2 have y: "1 < ?y" by simp
  then have n: "2 \<le> \<lceil>?y\<rceil>" by (simp add: le_ceiling_iff)
  have "?y / 2 \<le> of_int \<lceil>?y\<rceil> / 2"
    using le_of_int_ceiling [of ?y] by simp
  also have "\<dots> \<le> of_int (\<lceil>?y\<rceil> - 1)"
    using n by simp
  finally have "\<lceil>?y / 2\<rceil> \<le> \<lceil>?y\<rceil> - 1" by (rule ceiling_le)
  moreover have "1 / (2 * x) = ?y / 2" by simp
  ultimately have "\<lceil>1 / (2 * x)\<rceil> < \<lceil>1 / x\<rceil>" by (simp add: mult.commute)
  moreover have "0 < \<lceil>1 / x\<rceil>" using n by linarith
  ultimately show ?case by simp
qed


definition double_exponent :: "rat \<Rightarrow> int" where
  "double_exponent x = (if \<bar>x\<bar> \<ge> 1 then exponent_up \<bar>x\<bar> else exponent_down \<bar>x\<bar>)"

definition double_quantum :: "rat \<Rightarrow> rat" where
  "double_quantum x = pow2 (max (double_exponent x) (- 1022) - 52)"

definition round_double :: "rat \<Rightarrow> rat" where
  "round_double x = of_int (round_half_even (x / double_quantum x)) * double_quantum x"

text \<open>
  The loop body and the loop of \<open>apply_hos_regulations\<close> again, with the result of every
  addition, subtraction, multiplication and division rounded as Python rounds it.
\<close>

definition hos_body_double :: "segment \<Rightarrow> hos_state \<Rightarrow> py_error + hos_state" where
  "hos_body_double seg s =
     (if segment_type seg = ''driving'' then
        (if hours_since_break s \<ge> 8 then
           (let break_location = start_location seg in
            Inr (s\<lparr> result_segments := result_segments s @
                      [\<lparr> segment_type = ''break'', start_location = break_location,
                         end_location = break_location, distance_miles = 0,
                         estimated_drive_time = 1 / 2 \<rparr>],
                    hours_since_break := 0,
                    hours_duty := round_double (hours_duty s + 1 / 2),
                    cycle_hours := round_double (cycle_hours s + 1 / 2),
                    segment_queue := seg # segment_queue s \<rparr>))
         else
           (let remaining_drive_time = round_double (11 - hours_driving s) in
            if estimated_drive_time seg > remaining_drive_time then
              (if estimated_drive_time seg = 0 then Inl ZeroDivisionError
               else
                 (let partial_distance =
                        round_double
                          (round_double (remaining_drive_time / estimated_drive_time seg)
                           * distance_miles seg);
                      partial_location = rest_stop_name (start_location seg) (end_location seg);
                      remaining_distance = round_double (distance_miles seg - partial_distance);
                      remaining_time = round_double (estimated_drive_time seg - remaining_drive_time)
                  in Inr (s\<lparr> result_segments := result_segments s @
                              [\<lparr> segment_type = ''driving'', start_location = start_location seg,
                                 end_location = partial_location, distance_miles = partial_distance,
                                 estimated_drive_time = remaining_drive_time \<rparr>,
                               \<lparr> segment_type = ''rest'', start_location = partial_location,
                                 end_location = partial_location, distance_miles = 0,
                                 estimated_drive_time = 10 \<rparr>],
                            hours_driving := 0,
                            hours_duty := 0,
                            cycle_hours := round_double (cycle_hours s + remaining_drive_time),
                            hours_since_break := 0,
                            segment_queue :=
                              \<lparr> segment_type = ''driving'', start_location = partial_location,
                                end_location = end_location seg, distance_miles = remaining_distance,
                                estimated_drive_time = remaining_time \<rparr> # segment_queue s \<rparr>)))
            else if round_double (hours_duty s + estimated_drive_time seg) > 14 then
              (let break_location = start_location seg in
               Inr (s\<lparr> result_segments := result_segments s @
                         [\<lparr> segment_type = ''rest'', start_location = break_location,
                            end_location = break_location, distance_miles = 0,
                            estimated_drive_time = 10 \<rparr>],
                       hours_driving := 0,
                       hours_duty := 0,
                       hours_since_break := 0,
                       segment_queue := seg # segment_queue s \<rparr>))
            else
              Inr (s\<lparr> result_segments := result_segments s @ [seg],
                      hours_driving := round_double (hours_driving s + estimated_drive_time seg),
                      hours_duty := round_double (hours_duty s + estimated_drive_time seg),
                      cycle_hours := round_double (cycle_hours s + estimated_drive_time seg),
                      hours_since_break :=
                        round_double (hours_since_break s + estimated_drive_time seg) \<rparr>)))
      else if segment_type seg \<in> set [''rest'', ''break''] then
        (if estimated_drive_time seg \<ge> 10 then
           Inr (s\<lparr> result_segments := result_segments s @ [seg],
                   hours_driving := 0, hours_duty := 0, hours_since_break := 0 \<rparr>)
         else if estimated_drive_time seg \<ge> 1 / 2 then
           Inr (s\<lparr> result_segments := result_segments s @ [seg],
                   hours_since_break := 0,
                   hours_duty := round_double (hours_duty s + estimated_drive_time seg),
                   cycle_hours := round_double (cycle_hours s + estimated_drive_time seg) \<rparr>)
         else
           Inr (s\<lparr> result_segments := result_segments s @ [seg],
                   hours_duty := round_double (hours_duty s + estimated_drive_time seg),
                   cycle_hours := round_double (cycle_hours s + estimated_drive_time seg) \<rparr>))
      else
        Inr (s\<lparr> result_segments := result_segments s @ [seg],
                hours_duty := round_double (hours_duty s + estimated_drive_time seg),
                cycle_hours := round_double (cycle_hours s + estimated_drive_time seg) \<rparr>))"

partial_function (option) hos_loop_double :: "hos_state \<Rightarrow> (py_error + segment list) option" where
  "hos_loop_double s =
     (case segment_queue s of
        [] \<Rightarrow> Some (Inr (result_segments s))
      | seg # rest \<Rightarrow>
          (case hos_body_double seg (s\<lparr> segment_queue := rest \<rparr>) of
             Inl e \<Rightarrow> Some (Inl e)
           | Inr s' \<Rightarrow> hos_loop_double s'))"

definition apply_hos_regulations_double ::
  "segment list \<Rightarrow> rat \<Rightarrow> (py_error + segment list) option" where
  "apply_hos_regulations_double segments chu = hos_loop_double (hos_init segments chu)"

section \<open>\<^verbatim>\<open>TripViewSet.plan_route\<close> (views.py)\<close>

record trip =
  trip_current_location :: string
  trip_pickup_location :: string
  trip_dropoff_location :: string
  trip_current_hours_used :: rat

text \<open>
  The geocoder, the distance function of geopy and the database are parameters. A call of
  \<open>geocode\<close> raises an exception (\<open>Inl\<close>), finds nothing (\<open>Inr None\<close>) or resolves the
  name (\<open>Inr (Some place)\<close>); \<open>miles\<close> is the distance between two resolved places;
  \<open>create_segment\<close> and \<open>create_log\<close> stand for
  \<^verbatim>\<open>RouteSegment.objects.create\<close> and \<^verbatim>\<open>LogEntry.objects.create\<close> and give
  the exception that the database raises for a row, if any. Everything from the first call of
  the geocoder on is inside the \<^verbatim>\<open>try\<close> block, whose handler answers with status 400
  and the text of the exception, whatever has been saved by then.
\<close>

datatype answer_400 = Could_not_geocode | Exception_text py_error

text \<open>Saving rows one by one until the database raises: the exception, and the rows saved.\<close>

fun save_rows :: "('a \<Rightarrow> py_error option) \<Rightarrow> 'a list \<Rightarrow> py_error option \<times> 'a list" where
  "save_rows create [] = (None, [])"
| "save_rows create (x # xs) =
     (case create x of
        Some e \<Rightarrow> (Some e, [])
      | None \<Rightarrow> (case save_rows create xs of (r, saved) \<Rightarrow> (r, x # saved)))"

text \<open>
  The dates of Python end with 31 December 9999, and a \<^verbatim>\<open>timedelta\<close> has fewer than
  \<open>10^9\<close> days. \<open>log_overflow\<close> says when the date arithmetic of \<open>generate_logs\<close> raises
  \<^verbatim>\<open>OverflowError\<close> for a segment: in \<^verbatim>\<open>timedelta(hours=...)\<close>, in the sum
  \<^verbatim>\<open>start_datetime + timedelta(...)\<close>, or in
  \<^verbatim>\<open>start_datetime.date() + timedelta(days=1)\<close> of the midnight-crossing branch.
\<close>

definition datetime_max :: int where
  "datetime_max = 3652059 * usec_per_day"

definition log_overflow :: "int \<Rightarrow> segment \<Rightarrow> bool" where
  "log_overflow current_datetime seg =
     (let td = timedelta_hours (estimated_drive_time seg);
          end_datetime = current_datetime + td
      in td < - (999999999 * usec_per_day) \<or> td \<ge> 1000000000 * usec_per_day \<or>
         end_datetime < 0 \<or> end_datetime \<ge> datetime_max \<or>
         (dt_date current_datetime \<noteq> dt_date end_datetime \<and>
          dt_date current_datetime + 1 \<ge> 3652059))"

text \<open>
  \<open>generate_logs\<close> as \<open>plan_route\<close> runs it, on the saved segments: the log entries of
  each segment are created in turn until the date arithmetic or the database raises. The
  result is the exception, if any, and the log entries saved.
\<close>

fun generate_logs_saving ::
  "(log_entry \<Rightarrow> py_error option) \<Rightarrow> int \<Rightarrow> segment list \<Rightarrow> py_error option \<times> log_entry list" where
  "generate_logs_saving create_log current_datetime [] = (None, [])"
| "generate_logs_saving create_log current_datetime (seg # segs) =
     (if log_overflow current_datetime seg then (Some OverflowError, [])
      else
        (case generate_logs_body current_datetime seg of
           (entries, end_datetime) \<Rightarrow>
             (case save_rows create_log entries of
                (Some e, saved) \<Rightarrow> (Some e, saved)
              | (None, saved) \<Rightarrow>
                  (case generate_logs_saving create_log end_datetime segs of
                     (r, later) \<Rightarrow> (r, saved @ later)))))"

text \<open>
  The answer of \<open>plan_route\<close>: \<open>Inl\<close> of the error of a 400 response with the segments
  and log entries that are saved at that moment, or \<open>Inr\<close> of the segments and log entries
  saved before the success response. The rows of an earlier plan are deleted first. No
  answer (\<open>None\<close>) stands for a segmenter that does not return. The distances and the
  durations are exact here; \<open>apply_hos_regulations_double\<close> above is the segmenter with
  the rounding of Python.
\<close>

definition plan_route ::
  "(string \<Rightarrow> py_error + 'loc option) \<Rightarrow> ('loc \<Rightarrow> 'loc \<Rightarrow> rat)
     \<Rightarrow> (segment \<Rightarrow> py_error option) \<Rightarrow> (log_entry \<Rightarrow> py_error option) \<Rightarrow> int \<Rightarrow> trip
     \<Rightarrow> (answer_400 \<times> segment list \<times> log_entry list + segment list \<times> log_entry list) option" where
  "plan_route geocode miles create_segment create_log now t =
     (case geocode (trip_current_location t) of
        Inl e \<Rightarrow> Some (Inl (Exception_text e, [], []))
      | Inr current_location \<Rightarrow>
     (case geocode (trip_pickup_location t) of
        Inl e \<Rightarrow> Some (Inl (Exception_text e, [], []))
      | Inr pickup_location \<Rightarrow>
     (case geocode (trip_dropoff_location t) of
        Inl e \<Rightarrow> Some (Inl (Exception_text e, [], []))
      | Inr dropoff_location \<Rightarrow>
     (case (current_location, pickup_location, dropoff_location) of
        (Some current_location, Some pickup_location, Some dropoff_location) \<Rightarrow>
          (let current_to_pickup = miles current_location pickup_location;
               pickup_to_dropoff = miles pickup_location dropoff_location;
               driving_time_to_pickup = current_to_pickup / 60;
               driving_time_to_dropoff = pickup_to_dropoff / 60;
               initial_segments =
                 [\<lparr> segment_type = ''driving'', start_location = trip_current_location t,
                    end_location = trip_pickup_location t, distance_miles = current_to_pickup,
                    estimated_drive_time = driving_time_to_pickup \<rparr>,
                  \<lparr> segment_type = ''pickup'', start_location = trip_pickup_location t,
                    end_location = trip_pickup_location t, distance_miles = 0,
                    estimated_drive_time = 1 \<rparr>,
                  \<lparr> segment_type = ''driving'', start_location = trip_pickup_location t,
                    end_location = trip_dropoff_location t, distance_miles = pickup_to_dropoff,
                    estimated_drive_time = driving_time_to_dropoff \<rparr>,
                  \<lparr> segment_type = ''dropoff'', start_location = trip_dropoff_location t,
                    end_location = trip_dropoff_location t, distance_miles = 0,
                    estimated_drive_time = 1 \<rparr>]
           in
             (case apply_hos_regulations (add_fuel_stops initial_segments)
                     (trip_current_hours_used t) of
                None \<Rightarrow> None
              | Some (Inl e) \<Rightarrow> Some (Inl (Exception_text e, [], []))
              | Some (Inr processed_segments) \<Rightarrow>
                  (case save_rows create_segment processed_segments of
                     (Some e, saved) \<Rightarrow> Some (Inl (Exception_text e, saved, []))
                   | (None, saved) \<Rightarrow>
                       (case generate_logs_saving create_log (now - now mod usec_per_hour) saved of
                          (Some e, logs) \<Rightarrow> Some (Inl (Exception_text e, saved, logs))
                        | (None, logs) \<Rightarrow> Some (Inr (saved, logs))))))
      | _ \<Rightarrow> Some (Inl (Could_not_geocode, [], []))))))"

section \<open>Notions used to state the properties\<close>

text \<open>The miles driven in a list of segments: the distances of its driving segments.\<close>

definition driving_miles :: "segment list \<Rightarrow> rat" where
  "driving_miles xs =
     sum_list (map distance_miles (filter (\<lambda>x. segment_type x = ''driving'') xs))"

text \<open>
  A bound on the number of iterations that the work queue of \<open>apply_hos_regulations\<close>
  spends on its first leg: \<open>fresh_cost d\<close> bounds the splits of a driving leg of \<open>d\<close>
  hours that starts with all counters at zero.
\<close>

definition fresh_cost :: "rat \<Rightarrow> nat" where
  "fresh_cost d = nat \<lceil>d / 11\<rceil>"

definition head_cost :: "segment \<Rightarrow> hos_state \<Rightarrow> nat" where
  "head_cost seg s =
     (if segment_type seg = ''driving'' then
        (if hours_since_break s \<ge> 8 then 2 + fresh_cost (estimated_drive_time seg) else 0) +
        (if estimated_drive_time seg > 11 - hours_driving s then
           1 + fresh_cost (estimated_drive_time seg - (11 - hours_driving s))
         else if hours_duty s + estimated_drive_time seg > 14 then
           1 + fresh_cost (estimated_drive_time seg)
         else 0)
      else 0)"

definition queue_cost :: "hos_state \<Rightarrow> nat" where
  "queue_cost s =
     (case segment_queue s of
        [] \<Rightarrow> 0
      | seg # rest \<Rightarrow> head_cost seg (s\<lparr> segment_queue := rest \<rparr>))"

definition hos_measure :: "(hos_state \<times> hos_state) set" where
  "hos_measure = measures [\<lambda>s. length (segment_queue s), queue_cost]"

text \<open>The state after at most \<open>n\<close> iterations of the loop of \<open>apply_hos_regulations\<close>.\<close>

fun hos_steps :: "nat \<Rightarrow> hos_state \<Rightarrow> py_error + hos_state" where
  "hos_steps 0 s = Inr s"
| "hos_steps (Suc n) s =
     (case segment_queue s of
        [] \<Rightarrow> Inr s
      | seg # rest \<Rightarrow>
          (case hos_body seg (s\<lparr> segment_queue := rest \<rparr>) of
             Inl e \<Rightarrow> Inl e
           | Inr s' \<Rightarrow> hos_steps n s'))"






text \<open>A log entry that runs forward within its day.\<close>

definition entry_ok :: "log_entry \<Rightarrow> bool" where
  "entry_ok r \<longleftrightarrow> 0 \<le> start_time r \<and> start_time r \<le> end_time r \<and> end_time r < usec_per_day"

text \<open>
  An entry that takes up where the one before it ends: at the same instant of the same day,
  or at 00:00:00 of the next day when the one before ends at 23:59:59.
\<close>

definition follows :: "log_entry \<Rightarrow> log_entry \<Rightarrow> bool" where
  "follows r r' \<longleftrightarrow>
     date r' = date r \<and> start_time r' = end_time r \<or>
     date r' = date r + 1 \<and> end_time r = usec_per_day - usec_per_second \<and> start_time r' = 0"

text \<open>A list of log entries each of which follows the one before it.\<close>

fun contiguous :: "log_entry list \<Rightarrow> bool" where
  "contiguous (r # r' # rs) = (follows r r' \<and> contiguous (r' # rs))"
| "contiguous rs = True"

text \<open>The sum of the durations of the segments, as \<^verbatim>\<open>timedelta\<close> values.\<close>

fun total_timedelta :: "segment list \<Rightarrow> int" where
  "total_timedelta [] = 0"
| "total_timedelta (seg # segs) = timedelta_hours (estimated_drive_time seg) + total_timedelta segs"


text \<open>A start and a list of segments for which the date arithmetic of the log never raises.\<close>

fun logs_in_range :: "int \<Rightarrow> segment list \<Rightarrow> bool" where
  "logs_in_range current_datetime [] = True"
| "logs_in_range current_datetime (seg # segs) =
     (\<not> log_overflow current_datetime seg \<and>
      logs_in_range (current_datetime + timedelta_hours (estimated_drive_time seg)) segs)"

text \<open>A database that never raises.\<close>

definition db_ok :: "'a \<Rightarrow> py_error option" where
  "db_ok row = None"

section \<open>Concrete inputs\<close>

definition leg2500 :: segment where
  "leg2500 = \<lparr> segment_type = ''driving'', start_location = ''A'', end_location = ''B'',
     distance_miles = 2500, estimated_drive_time = 2500 / 60 \<rparr>"

definition pickup1 :: segment where
  "pickup1 = \<lparr> segment_type = ''pickup'', start_location = ''B'', end_location = ''B'',
     distance_miles = 0, estimated_drive_time = 1 \<rparr>"



definition leg660 :: segment where
  "leg660 = \<lparr> segment_type = ''driving'', start_location = ''A'', end_location = ''B'',
     distance_miles = 660, estimated_drive_time = 11 \<rparr>"

definition leg60 :: segment where
  "leg60 = \<lparr> segment_type = ''driving'', start_location = ''B'', end_location = ''C'',
     distance_miles = 60, estimated_drive_time = 1 \<rparr>"


definition state_hd6 :: hos_state where
  "state_hd6 = \<lparr> result_segments = [], hours_driving = 6, hours_duty = 7, cycle_hours = 7,
     hours_since_break = 6, segment_queue = [] \<rparr>"

definition leg420 :: segment where
  "leg420 = \<lparr> segment_type = ''driving'', start_location = ''A'', end_location = ''B'',
     distance_miles = 420, estimated_drive_time = 7 \<rparr>"

definition state_at_limit :: hos_state where
  "state_at_limit =
     \<lparr> result_segments =
         [leg660,
          \<lparr> segment_type = ''break'', start_location = ''B'', end_location = ''B'',
            distance_miles = 0, estimated_drive_time = 1 / 2 \<rparr>],
       hours_driving = 11, hours_duty = 23 / 2, cycle_hours = 23 / 2,
       hours_since_break = 0, segment_queue = [leg60] \<rparr>"

definition state_after_empty_split :: hos_state where
  "state_after_empty_split =
     \<lparr> result_segments =
         [leg660,
          \<lparr> segment_type = ''break'', start_location = ''B'', end_location = ''B'',
            distance_miles = 0, estimated_drive_time = 1 / 2 \<rparr>,
          \<lparr> segment_type = ''driving'', start_location = ''B'',
            end_location = ''Rest Stop (B to C)'', distance_miles = 0,
            estimated_drive_time = 0 \<rparr>,
          \<lparr> segment_type = ''rest'', start_location = ''Rest Stop (B to C)'',
            end_location = ''Rest Stop (B to C)'', distance_miles = 0,
            estimated_drive_time = 10 \<rparr>],
       hours_driving = 0, hours_duty = 0, cycle_hours = 23 / 2,
       hours_since_break = 0,
       segment_queue =
         [\<lparr> segment_type = ''driving'', start_location = ''Rest Stop (B to C)'',
            end_location = ''C'', distance_miles = 60, estimated_drive_time = 1 \<rparr>] \<rparr>"

definition leg_zero :: segment where
  "leg_zero = \<lparr> segment_type = ''driving'', start_location = ''A'', end_location = ''A'',
     distance_miles = 0, estimated_drive_time = 0 \<rparr>"

definition leg_2h :: segment where
  "leg_2h = \<lparr> segment_type = ''driving'', start_location = ''A'', end_location = ''B'',
     distance_miles = 120, estimated_drive_time = 2 \<rparr>"

definition leg_short :: segment where
  "leg_short = \<lparr> segment_type = ''driving'', start_location = ''A'', end_location = ''B'',
     distance_miles = 7199 / 120, estimated_drive_time = 7199 / 7200 \<rparr>"

definition geocode_all :: "string \<Rightarrow> py_error + string option" where
  "geocode_all name = Inr (Some name)"

definition miles_60 :: "string \<Rightarrow> string \<Rightarrow> rat" where
  "miles_60 a b = 60"

definition trip_100 :: trip where
  "trip_100 = \<lparr> trip_current_location = ''A'', trip_pickup_location = ''B'',
     trip_dropoff_location = ''C'', trip_current_hours_used = 100 \<rparr>"

definition plan_trip_100 :: "segment list" where
  "plan_trip_100 =
     [\<lparr> segment_type = ''driving'', start_location = ''A'', end_location = ''B'',
        distance_miles = 60, estimated_drive_time = 1 \<rparr>,
      \<lparr> segment_type = ''pickup'', start_location = ''B'', end_location = ''B'',
        distance_miles = 0, estimated_drive_time = 1 \<rparr>,
      \<lparr> segment_type = ''driving'', start_location = ''B'', end_location = ''C'',
        distance_miles = 60, estimated_drive_time = 1 \<rparr>,
      \<lparr> segment_type = ''dropoff'', start_location = ''C'', end_location = ''C'',
        distance_miles = 0, estimated_drive_time = 1 \<rparr>]"

definition logs_trip_100 :: "log_entry list" where
  "logs_trip_100 =
     [\<lparr> date = 0, status = ''driving'', start_time = 36000000000,
        end_time = 39600000000, location = ''A'' \<rparr>,
      \<lparr> date = 0, status = ''on_duty_not_driving'', start_time = 39600000000,
        end_time = 43200000000, location = ''B'' \<rparr>,
      \<lparr> date = 0, status = ''driving'', start_time = 43200000000,
        end_time = 46800000000, location = ''B'' \<rparr>,
      \<lparr> date = 0, status = ''on_duty_not_driving'', start_time = 46800000000,
        end_time = 50400000000, location = ''C'' \<rparr>]"

definition dropoff1 :: segment where
  "dropoff1 = \<lparr> segment_type = ''dropoff'', start_location = ''C'', end_location = ''C'',
     distance_miles = 0, estimated_drive_time = 1 \<rparr>"

definition miles_short :: "string \<Rightarrow> string \<Rightarrow> rat" where
  "miles_short a b = (if a = ''A'' then 7199 / 120 else 60)"

definition trip_0 :: trip where
  "trip_0 = \<lparr> trip_current_location = ''A'', trip_pickup_location = ''B'',
     trip_dropoff_location = ''C'', trip_current_hours_used = 0 \<rparr>"

definition plan_short :: "segment list" where
  "plan_short = [leg_short, pickup1, leg60, dropoff1]"

definition logs_short :: "log_entry list" where
  "logs_short =
     [\<lparr> date = 0, status = ''driving'', start_time = 82800000000,
        end_time = 86399500000, location = ''A'' \<rparr>,
      \<lparr> date = 0, status = ''on_duty_not_driving'', start_time = 86399500000,
        end_time = 86399000000, location = ''B'' \<rparr>,
      \<lparr> date = 1, status = ''on_duty_not_driving'', start_time = 0,
        end_time = 3599500000, location = ''B'' \<rparr>,
      \<lparr> date = 1, status = ''driving'', start_time = 3599500000,
        end_time = 7199500000, location = ''B'' \<rparr>,
      \<lparr> date = 1, status = ''on_duty_not_driving'', start_time = 7199500000,
        end_time = 10799500000, location = ''C'' \<rparr>]"


definition miles_660 :: "string \<Rightarrow> string \<Rightarrow> rat" where
  "miles_660 a b = (if a = ''A'' then 660 else 60)"

text \<open>The plan for 660 miles to the pickup and 60 miles from there to the dropoff.\<close>

definition plan_660 :: "segment list" where
  "plan_660 =
     [leg660,
      pickup1,
      \<lparr> segment_type = ''break'', start_location = ''B'', end_location = ''B'',
        distance_miles = 0, estimated_drive_time = 1 / 2 \<rparr>,
      \<lparr> segment_type = ''driving'', start_location = ''B'',
        end_location = ''Rest Stop (B to C)'', distance_miles = 0,
        estimated_drive_time = 0 \<rparr>,
      \<lparr> segment_type = ''rest'', start_location = ''Rest Stop (B to C)'',
        end_location = ''Rest Stop (B to C)'', distance_miles = 0,
        estimated_drive_time = 10 \<rparr>,
      \<lparr> segment_type = ''driving'', start_location = ''Rest Stop (B to C)'',
        end_location = ''C'', distance_miles = 60, estimated_drive_time = 1 \<rparr>,
      dropoff1]"

section \<open>The fuel-stop injector\<close>

declare fuel_loop.simps [simp del]

lemma fuel_loop_prefix:
  "fuel_loop seg cur r (a @ b) = (case fuel_loop seg cur r b of (c, r', b') \<Rightarrow> (c, r', a @ b'))"
proof (induction seg cur r b rule: fuel_loop.induct)
  case (1 seg cur r b)
  show ?case
  proof (cases "r > 1000")
    case True
    then show ?thesis
      using 1 [OF True refl]
      by (subst fuel_loop.simps, subst (2) fuel_loop.simps) (simp add: Let_def)
  next
    case False
    then show ?thesis
      by (subst fuel_loop.simps, subst (2) fuel_loop.simps) simp
  qed
qed

lemma fuel_loop_props:
  "fuel_loop seg cur r res = (cur', r', res') \<Longrightarrow>
     \<exists>new. res' = res @ new \<and> driving_miles new + r' = r \<and>
     (\<forall>x\<in>set new. segment_type x = ''driving'' \<longrightarrow> distance_miles x = 1000) \<and>
     (r > 1000 \<longrightarrow> 0 < r' \<and> r' \<le> 1000) \<and> (r \<le> 1000 \<longrightarrow> r' = r \<and> new = [])"
proof (induction seg cur r res arbitrary: cur' r' res' rule: fuel_loop.induct)
  case (1 seg cur r res)
  show ?case
  proof (cases "r > 1000")
    case True
    let ?loc = "fuel_stop_name cur (end_location seg)"
    let ?two = "[\<lparr> segment_type = ''driving'', start_location = cur,
               end_location = ?loc, distance_miles = 1000,
               estimated_drive_time = 1000 / 60 \<rparr>,
             \<lparr> segment_type = ''fuel'', start_location = ?loc,
               end_location = ?loc, distance_miles = 0,
               estimated_drive_time = 1 / 2 \<rparr>]"
    have "fuel_loop seg ?loc (r - 1000) (res @ ?two) = (cur', r', res')"
      using True "1.prems" by (subst (asm) fuel_loop.simps) (simp add: Let_def)
    from "1.IH" [OF True refl this]
    obtain new where new: "res' = (res @ ?two) @ new" "driving_miles new + r' = r - 1000"
      "\<forall>x\<in>set new. segment_type x = ''driving'' \<longrightarrow> distance_miles x = 1000"
      "r - 1000 > 1000 \<longrightarrow> 0 < r' \<and> r' \<le> 1000" "r - 1000 \<le> 1000 \<longrightarrow> r' = r - 1000 \<and> new = []"
      by (elim exE conjE)
    have a: "res' = res @ (?two @ new)" using new(1) by simp
    have b: "driving_miles (?two @ new) + r' = r"
      using new(2) by (simp add: driving_miles_def)
    have c: "\<forall>x\<in>set (?two @ new). segment_type x = ''driving'' \<longrightarrow> distance_miles x = 1000"
      using new(3) by simp
    have d: "0 < r' \<and> r' \<le> 1000"
      using new(4,5) True by (cases "r - 1000 > 1000") simp_all
    have e: "r \<le> 1000 \<longrightarrow> r' = r \<and> ?two @ new = []"
      using True by simp
    show ?thesis
    proof (intro exI [of _ "?two @ new"] conjI)
      show "res' = res @ ?two @ new" by (rule a)
      show "driving_miles (?two @ new) + r' = r" by (rule b)
      show "\<forall>x\<in>set (?two @ new). segment_type x = ''driving'' \<longrightarrow> distance_miles x = 1000"
        by (rule c)
      show "1000 < r \<longrightarrow> 0 < r' \<and> r' \<le> 1000" using d by simp
      show "r \<le> 1000 \<longrightarrow> r' = r \<and> ?two @ new = []" by (rule e)
    qed
  next
    case False
    then show ?thesis
      using "1.prems" by (subst (asm) fuel_loop.simps) (simp add: driving_miles_def)
  qed
qed

lemma add_fuel_stops_body_append:
  "add_fuel_stops_body res seg = res @ add_fuel_stops_body [] seg"
proof -
  have "fuel_loop seg (start_location seg) (distance_miles seg) res =
        (case fuel_loop seg (start_location seg) (distance_miles seg) [] of
           (c, r', b') \<Rightarrow> (c, r', res @ b'))"
    using fuel_loop_prefix [of seg "start_location seg" "distance_miles seg" res "[]"] by simp
  then show ?thesis
    by (simp add: add_fuel_stops_body_def split: prod.splits)
qed

lemma foldl_add_fuel_stops_body:
  "foldl add_fuel_stops_body res segs = res @ concat (map (add_fuel_stops_body []) segs)"
proof (induction segs arbitrary: res)
  case Nil
  show ?case by simp
next
  case (Cons seg segs)
  show ?case
    using add_fuel_stops_body_append [of res seg] by (simp add: Cons.IH)
qed

lemma add_fuel_stops_single: "add_fuel_stops [seg] = add_fuel_stops_body [] seg"
  by (simp add: add_fuel_stops_def)

lemma add_fuel_stops_concat:
  "add_fuel_stops segs = concat (map (\<lambda>seg. add_fuel_stops [seg]) segs)"
  by (simp add: add_fuel_stops_def foldl_add_fuel_stops_body)

lemma body_driving_miles:
  "segment_type seg = ''driving'' \<Longrightarrow> driving_miles (add_fuel_stops_body [] seg) = distance_miles seg"
proof (cases "distance_miles seg > 1000")
  case False
  assume "segment_type seg = ''driving''"
  with False show ?thesis by (simp add: add_fuel_stops_body_def driving_miles_def)
next
  case True
  assume d: "segment_type seg = ''driving''"
  obtain c r' new where fl: "fuel_loop seg (start_location seg) (distance_miles seg) [] = (c, r', new)"
    by (cases "fuel_loop seg (start_location seg) (distance_miles seg) []") auto
  from fuel_loop_props [OF fl] True
  have "driving_miles new + r' = distance_miles seg" "0 < r'" by auto
  then show ?thesis using True d fl
    by (simp add: add_fuel_stops_body_def driving_miles_def)
qed

lemma body_driving_le:
  "x \<in> set (add_fuel_stops_body [] seg) \<Longrightarrow> segment_type x = ''driving'' \<Longrightarrow> distance_miles x \<le> 1000"
proof (cases "segment_type seg = ''driving'' \<and> distance_miles seg > 1000")
  case False
  assume "x \<in> set (add_fuel_stops_body [] seg)" "segment_type x = ''driving''"
  with False show ?thesis by (auto simp add: add_fuel_stops_body_def)
next
  case True
  assume x: "x \<in> set (add_fuel_stops_body [] seg)" "segment_type x = ''driving''"
  obtain c r' new where fl: "fuel_loop seg (start_location seg) (distance_miles seg) [] = (c, r', new)"
    by (cases "fuel_loop seg (start_location seg) (distance_miles seg) []") auto
  from fuel_loop_props [OF fl] True
  have p: "\<forall>x\<in>set new. segment_type x = ''driving'' \<longrightarrow> distance_miles x = 1000" "0 < r'" "r' \<le> 1000"
    by auto
  from x True fl p(2) have "x \<in> set new \<or> distance_miles x = r'"
    by (auto simp add: add_fuel_stops_body_def)
  then show ?thesis using p x(2) by auto
qed

text \<open>
  C6. The fuel-stop injector works leg by leg; the driving segments it makes from a driving
  leg have the leg's distance as their sum; no driving segment of its output is longer than
  1000 miles; a leg that is not a driving leg of more than 1000 miles is passed through
  unchanged.
\<close>

theorem add_fuel_stops_preserves_distance:
  "add_fuel_stops segs = concat (map (\<lambda>leg. add_fuel_stops [leg]) segs)
   \<and> (segment_type seg = ''driving'' \<longrightarrow> driving_miles (add_fuel_stops [seg]) = distance_miles seg)
   \<and> (\<forall>x \<in> set (add_fuel_stops segs). segment_type x = ''driving'' \<longrightarrow> distance_miles x \<le> 1000)
   \<and> (\<not> (segment_type seg = ''driving'' \<and> distance_miles seg > 1000) \<longrightarrow> add_fuel_stops [seg] = [seg])"
proof (intro conjI impI ballI)
  show "add_fuel_stops segs = concat (map (\<lambda>leg. add_fuel_stops [leg]) segs)"
    by (rule add_fuel_stops_concat)
next
  assume "segment_type seg = ''driving''"
  then show "driving_miles (add_fuel_stops [seg]) = distance_miles seg"
    by (simp add: add_fuel_stops_single body_driving_miles)
next
  fix x assume "x \<in> set (add_fuel_stops segs)" "segment_type x = ''driving''"
  then show "distance_miles x \<le> 1000"
    by (auto simp add: add_fuel_stops_def foldl_add_fuel_stops_body dest: body_driving_le)
next
  assume "\<not> (segment_type seg = ''driving'' \<and> distance_miles seg > 1000)"
  then show "add_fuel_stops [seg] = [seg]"
    by (auto simp add: add_fuel_stops_single add_fuel_stops_body_def)
qed

lemma add_fuel_stops_example:
  "add_fuel_stops [leg2500, pickup1] =
  [\<lparr>segment_type = ''driving'', start_location = ''A'',
     end_location = ''Fuel Stop (A to B)'', distance_miles = 1000,
     estimated_drive_time = 50 / 3\<rparr>,
  \<lparr>segment_type = ''fuel'', start_location = ''Fuel Stop (A to B)'',
     end_location = ''Fuel Stop (A to B)'', distance_miles = 0,
     estimated_drive_time = 1 / 2\<rparr>,
  \<lparr>segment_type = ''driving'', start_location = ''Fuel Stop (A to B)'',
     end_location = ''Fuel Stop (Fuel Stop (A to B) to B)'',
     distance_miles = 1000, estimated_drive_time = 50 / 3\<rparr>,
  \<lparr>segment_type = ''fuel'',
     start_location = ''Fuel Stop (Fuel Stop (A to B) to B)'',
     end_location = ''Fuel Stop (Fuel Stop (A to B) to B)'',
     distance_miles = 0, estimated_drive_time = 1 / 2\<rparr>,
  \<lparr>segment_type = ''driving'',
     start_location = ''Fuel Stop (Fuel Stop (A to B) to B)'',
     end_location = ''B'', distance_miles = 500,
     estimated_drive_time = 25 / 3\<rparr>, pickup1]"
  by (simp add: add_fuel_stops_def add_fuel_stops_body_def leg2500_def fuel_loop.simps
      fuel_stop_name_def pickup1_def Let_def)

theorem add_fuel_stops_preserves_distance_witness:
  "segment_type leg2500 = ''driving''
   \<and> driving_miles (add_fuel_stops [leg2500]) = 2500
   \<and> add_fuel_stops [pickup1] = [pickup1]
   \<and> distance_miles (hd (add_fuel_stops [leg2500, pickup1])) \<le> 1000
   \<and> add_fuel_stops [leg2500, pickup1] = add_fuel_stops [leg2500] @ add_fuel_stops [pickup1]"
proof -
  note t1 = add_fuel_stops_preserves_distance [of "[leg2500, pickup1]" leg2500]
  note t2 = add_fuel_stops_preserves_distance [of "[leg2500, pickup1]" pickup1]
  have a: "segment_type leg2500 = ''driving''"
    by (simp add: leg2500_def)
  have b: "\<not> (segment_type pickup1 = ''driving'' \<and> distance_miles pickup1 > 1000)"
    by (simp add: pickup1_def)
  have c: "driving_miles (add_fuel_stops [leg2500]) = 2500"
    using t1 [THEN conjunct2, THEN conjunct1, rule_format, OF a] by (simp add: leg2500_def)
  have d: "add_fuel_stops [pickup1] = [pickup1]"
    using t2 [THEN conjunct2, THEN conjunct2, THEN conjunct2, rule_format, OF b] .
  have m: "hd (add_fuel_stops [leg2500, pickup1]) \<in> set (add_fuel_stops [leg2500, pickup1])"
    by (simp add: add_fuel_stops_example)
  have t: "segment_type (hd (add_fuel_stops [leg2500, pickup1])) = ''driving''"
    by (simp add: add_fuel_stops_example)
  have e: "distance_miles (hd (add_fuel_stops [leg2500, pickup1])) \<le> 1000"
    using t1 [THEN conjunct2, THEN conjunct2, THEN conjunct1, rule_format, OF m t] .
  have f: "add_fuel_stops [leg2500, pickup1] = add_fuel_stops [leg2500] @ add_fuel_stops [pickup1]"
    using t1 [THEN conjunct1] by simp
  from a c d e f show ?thesis by (intro conjI)
qed

section \<open>The duty-state tracker\<close>

text \<open>
  C3. \<open>HOSCalculator.__init__\<close> with \<open>current_hours_used = 5\<close>: the 11-hour and the
  14-hour allowances start at 6 and 9, not at 11 and 14.
\<close>

theorem HOSCalculator_init_seed_5:
  "driving_hours_left (HOSCalculator_init 5) = 6
   \<and> duty_window_left (HOSCalculator_init 5) = 9
   \<and> cycle_hours_left (HOSCalculator_init 5) = 65
   \<and> time_since_last_break (HOSCalculator_init 5) = 0"
  by (simp add: HOSCalculator_init_def)

section \<open>The work queue of the regulation segmenter\<close>

lemma fresh_cost_step: "d > 11 \<Longrightarrow> fresh_cost d = Suc (fresh_cost (d - 11))"
proof -
  assume d: "d > 11"
  have "\<lceil>(d - 11) / 11\<rceil> = \<lceil>d / 11\<rceil> - 1"
    by (simp add: diff_divide_distrib)
  moreover from d have "1 < \<lceil>d / 11\<rceil>"
    by (simp add: less_ceiling_iff)
  ultimately show ?thesis unfolding fresh_cost_def by linarith
qed

lemma hos_body_decreases:
  assumes "hos_body seg s = Inr s'"
  shows "length (segment_queue s') < Suc (length (segment_queue s)) \<or>
         (segment_queue s' \<noteq> [] \<and> length (segment_queue s') = Suc (length (segment_queue s)) \<and>
          queue_cost s' < head_cost seg s)"
proof (cases "segment_type seg = ''driving''")
  case False
  with assms show ?thesis
    by (auto simp add: hos_body_def split: if_splits)
next
  case drv: True
  show ?thesis
  proof (cases "hours_since_break s \<ge> 8")
    case True
    with drv assms have s': "s' = s\<lparr> result_segments := result_segments s @
                      [\<lparr> segment_type = ''break'', start_location = start_location seg,
                         end_location = start_location seg, distance_miles = 0,
                         estimated_drive_time = 1 / 2 \<rparr>],
                    hours_since_break := 0,
                    hours_duty := hours_duty s + 1 / 2,
                    cycle_hours := cycle_hours s + 1 / 2,
                    segment_queue := seg # segment_queue s \<rparr>"
      by (simp add: hos_body_def Let_def)
    have "queue_cost s' < head_cost seg s"
      using drv True by (simp add: s' queue_cost_def head_cost_def)
    then show ?thesis by (simp add: s')
  next
    case nb: False
    show ?thesis
    proof (cases "estimated_drive_time seg > 11 - hours_driving s")
      case True
      let ?r = "estimated_drive_time seg - (11 - hours_driving s)"
      from True drv nb assms have q: "segment_queue s' =
           \<lparr> segment_type = ''driving'',
             start_location = rest_stop_name (start_location seg) (end_location seg),
             end_location = end_location seg,
             distance_miles = distance_miles seg -
               ((11 - hours_driving s) / estimated_drive_time seg) * distance_miles seg,
             estimated_drive_time = ?r \<rparr> # segment_queue s"
         and c: "hours_driving s' = 0" "hours_duty s' = 0" "hours_since_break s' = 0"
        by (auto simp add: hos_body_def Let_def split: if_splits)
      have "queue_cost s' < head_cost seg s"
      proof (cases "?r > 11")
        case big: True
        then show ?thesis using drv nb True
          by (simp add: queue_cost_def head_cost_def q c fresh_cost_step [OF big])
      next
        case False
        then show ?thesis using drv nb True
          by (simp add: queue_cost_def head_cost_def q c)
      qed
      then show ?thesis by (simp add: q)
    next
      case ns: False
      show ?thesis
      proof (cases "hours_duty s + estimated_drive_time seg > 14")
        case True
        with ns drv nb assms have q: "segment_queue s' = seg # segment_queue s"
           and c: "hours_driving s' = 0" "hours_duty s' = 0" "hours_since_break s' = 0"
          by (auto simp add: hos_body_def Let_def split: if_splits)
        have "queue_cost s' < head_cost seg s"
        proof (cases "estimated_drive_time seg > 11")
          case big: True
          then show ?thesis using drv nb ns True
            by (simp add: queue_cost_def head_cost_def q c fresh_cost_step [OF big])
        next
          case False
          then show ?thesis using drv nb ns True
            by (simp add: queue_cost_def head_cost_def q c)
        qed
        then show ?thesis by (simp add: q)
      next
        case False
        with ns drv nb assms show ?thesis
          by (auto simp add: hos_body_def Let_def split: if_splits)
      qed
    qed
  qed
qed

lemma hos_step_in_measure:
  assumes "segment_queue s = seg # rest" "hos_body seg (s\<lparr> segment_queue := rest \<rparr>) = Inr s'"
  shows "(s', s) \<in> hos_measure"
  using hos_body_decreases [OF assms(2)] assms(1)
  by (auto simp add: hos_measure_def queue_cost_def split: list.splits)

lemma hos_loop_induct [case_names empty error step]:
  assumes empty: "\<And>s. segment_queue s = [] \<Longrightarrow> P s"
    and error: "\<And>s seg rest e. segment_queue s = seg # rest \<Longrightarrow>
                  hos_body seg (s\<lparr> segment_queue := rest \<rparr>) = Inl e \<Longrightarrow> P s"
    and step: "\<And>s seg rest s'. segment_queue s = seg # rest \<Longrightarrow>
                  hos_body seg (s\<lparr> segment_queue := rest \<rparr>) = Inr s' \<Longrightarrow> P s' \<Longrightarrow> P s"
  shows "P s"
proof -
  have "wf hos_measure" by (simp add: hos_measure_def)
  then show ?thesis
  proof (induct s rule: wf_induct_rule)
    case (less s)
    show ?case
    proof (cases "segment_queue s")
      case Nil
      then show ?thesis by (rule empty)
    next
      case (Cons seg rest)
      show ?thesis
      proof (cases "hos_body seg (s\<lparr> segment_queue := rest \<rparr>)")
        case (Inl e)
        with Cons show ?thesis by (rule error)
      next
        case (Inr s')
        from hos_step_in_measure [OF Cons Inr] have "P s'" by (rule less)
        with Cons Inr show ?thesis by (rule step)
      qed
    qed
  qed
qed

lemma hos_loop_empty: "segment_queue s = [] \<Longrightarrow> hos_loop s = Some (Inr (result_segments s))"
  by (subst hos_loop.simps) simp

lemma hos_loop_error:
  "segment_queue s = seg # rest \<Longrightarrow> hos_body seg (s\<lparr> segment_queue := rest \<rparr>) = Inl e \<Longrightarrow>
   hos_loop s = Some (Inl e)"
  by (subst hos_loop.simps) simp

lemma hos_loop_step:
  "segment_queue s = seg # rest \<Longrightarrow> hos_body seg (s\<lparr> segment_queue := rest \<rparr>) = Inr s' \<Longrightarrow>
   hos_loop s = hos_loop s'"
  by (subst hos_loop.simps) simp

lemma hos_body_driving_le:
  "hours_driving s \<le> 11 \<Longrightarrow> \<exists>s'. hos_body seg s = Inr s' \<and> hours_driving s' \<le> 11"
  by (auto simp add: hos_body_def Let_def)

lemma hos_loop_no_error:
  "hours_driving s \<le> 11 \<Longrightarrow> \<exists>out. hos_loop s = Some (Inr out)"
proof (induction s rule: hos_loop_induct)
  case (empty s)
  then show ?case by (simp add: hos_loop_empty)
next
  case (error s seg rest e)
  from hos_body_driving_le [of "s\<lparr> segment_queue := rest \<rparr>" seg] error show ?case by simp
next
  case (step s seg rest s')
  from hos_body_driving_le [of "s\<lparr> segment_queue := rest \<rparr>" seg] step
  have "hours_driving s' \<le> 11" by simp
  with step show ?case by (simp add: hos_loop_step)
qed

text \<open>
  Over exact arithmetic the work-queue loop leaves the loop and returns a segment list,
  without raising, for every leg sequence and every starting value.
\<close>

lemma apply_hos_regulations_returns:
  "\<exists>out. apply_hos_regulations segments chu = Some (Inr out)"
  unfolding apply_hos_regulations_def
  by (rule hos_loop_no_error) (simp add: hos_init_def)

lemma hos_body_cycle:
  "hos_body seg (s\<lparr> cycle_hours := c \<rparr>) =
     (case hos_body seg s of
        Inl e \<Rightarrow> Inl e
      | Inr t \<Rightarrow> Inr (t\<lparr> cycle_hours := c + (cycle_hours t - cycle_hours s) \<rparr>))"
  by (simp add: hos_body_def Let_def)

lemma hos_loop_cycle: "hos_loop (s\<lparr> cycle_hours := c \<rparr>) = hos_loop s"
proof (induction s arbitrary: c rule: hos_loop_induct)
  case (empty s)
  then show ?case by (simp add: hos_loop_empty)
next
  case (error s seg rest e)
  have swap: "(s\<lparr> cycle_hours := c \<rparr>)\<lparr> segment_queue := rest \<rparr> =
              (s\<lparr> segment_queue := rest \<rparr>)\<lparr> cycle_hours := c \<rparr>"
    by simp
  have "hos_body seg ((s\<lparr> cycle_hours := c \<rparr>)\<lparr> segment_queue := rest \<rparr>) = Inl e"
    by (simp only: swap hos_body_cycle error(2) sum.case)
  moreover have "segment_queue (s\<lparr> cycle_hours := c \<rparr>) = seg # rest"
    using error(1) by simp
  ultimately have "hos_loop (s\<lparr> cycle_hours := c \<rparr>) = Some (Inl e)"
    by (rule hos_loop_error [rotated])
  then show ?case using error by (simp add: hos_loop_error)
next
  case (step s seg rest s')
  let ?c' = "c + (cycle_hours s' - cycle_hours (s\<lparr> segment_queue := rest \<rparr>))"
  have swap: "(s\<lparr> cycle_hours := c \<rparr>)\<lparr> segment_queue := rest \<rparr> =
              (s\<lparr> segment_queue := rest \<rparr>)\<lparr> cycle_hours := c \<rparr>"
    by simp
  have "hos_body seg ((s\<lparr> cycle_hours := c \<rparr>)\<lparr> segment_queue := rest \<rparr>) =
        Inr (s'\<lparr> cycle_hours := ?c' \<rparr>)"
    by (simp only: swap hos_body_cycle step(2) sum.case)
  moreover have "segment_queue (s\<lparr> cycle_hours := c \<rparr>) = seg # rest"
    using step(1) by simp
  ultimately have "hos_loop (s\<lparr> cycle_hours := c \<rparr>) = hos_loop (s'\<lparr> cycle_hours := ?c' \<rparr>)"
    by (rule hos_loop_step [rotated])
  also have "\<dots> = hos_loop s'" by (rule step.IH)
  also have "\<dots> = hos_loop s" using step(1,2) by (simp add: hos_loop_step)
  finally show ?case .
qed

lemma apply_hos_regulations_cycle:
  "apply_hos_regulations segments a = apply_hos_regulations segments b"
proof -
  have "hos_init segments a = (hos_init segments b)\<lparr> cycle_hours := a \<rparr>"
    by (simp add: hos_init_def)
  then show ?thesis
    by (simp add: apply_hos_regulations_def hos_loop_cycle)
qed

text \<open>
  C9. The segment list that \<open>apply_hos_regulations\<close> returns does not depend on the
  starting value of the cycle counter: any two values give the same result. Nor does
  \<open>HOSCalculator.can_drive\<close> consult the cycle hours that are left.
\<close>

theorem seed_independent:
  "apply_hos_regulations segments a = apply_hos_regulations segments b
   \<and> can_drive (self\<lparr> cycle_hours_left := c \<rparr>) hours = can_drive self hours"
proof
  have "hos_loop (hos_init segments a) = hos_loop ((hos_init segments b)\<lparr> cycle_hours := a \<rparr>)"
    by (simp add: hos_init_def)
  also have "\<dots> = hos_loop (hos_init segments b)"
    by (rule hos_loop_cycle)
  finally show "apply_hos_regulations segments a = apply_hos_regulations segments b"
    by (simp add: apply_hos_regulations_def)
next
  show "can_drive (self\<lparr> cycle_hours_left := c \<rparr>) hours = can_drive self hours"
    by (simp add: can_drive_def)
qed

section \<open>The work queue of the regulation segmenter in double precision\<close>

declare exponent_up.simps [simp del] exponent_down.simps [simp del]

lemma floor_rat_numeral_div:
  "\<lfloor>(numeral a :: rat) / numeral b\<rfloor> = numeral a div numeral b"
  by (metis floor_divide_of_int_eq of_int_numeral)




lemma exponent_11: "exponent_up 11 = 3"
  by (simp add: exponent_up.simps)

lemma round_double_11: "round_double 11 = 11"
  by (simp add: round_double_def double_quantum_def double_exponent_def exponent_11 pow2_def
      round_half_even_def Let_def)



lemma round_double_small:
  "round_double 0 = 0" "round_double (1 / 2) = 1 / 2" "round_double 1 = 1"
  "round_double 60 = 60" "round_double (23 / 2) = 23 / 2" "round_double 660 = 660"
  by (simp_all add: round_double_def double_quantum_def double_exponent_def exponent_up.simps
      exponent_down.simps pow2_def round_half_even_def Let_def floor_rat_numeral_div)




section \<open>The limits kept by the regulation segmenter\<close>










section \<open>Splitting a driving leg\<close>

text \<open>
  C7. When the segmenter splits a driving leg (the leg is a driving leg, fewer than 8 hours
  have been driven since the last break, and its duration exceeds the remaining drive time
  \<open>11 - hours_driving\<close>), it emits a partial driving segment of that remaining time and of
  the proportional distance, then a ten-hour rest, and puts back at the front of the queue
  a remainder with the rest of the distance and of the time; the distances and the durations
  of the two pieces add up to those of the leg.
\<close>

theorem split_conserves:
  assumes "segment_type seg = ''driving''" and "hours_since_break s < 8"
    and "estimated_drive_time seg > 11 - hours_driving s" and "estimated_drive_time seg \<noteq> 0"
  shows "\<exists>s' part rem.
           hos_body seg s = Inr s' \<and>
           result_segments s' = result_segments s @
             [part, \<lparr> segment_type = ''rest'', start_location = end_location part,
                      end_location = end_location part, distance_miles = 0,
                      estimated_drive_time = 10 \<rparr>] \<and>
           segment_queue s' = rem # segment_queue s \<and>
           segment_type part = ''driving'' \<and> segment_type rem = ''driving'' \<and>
           estimated_drive_time part = 11 - hours_driving s \<and>
           distance_miles part =
             ((11 - hours_driving s) / estimated_drive_time seg) * distance_miles seg \<and>
           distance_miles rem = distance_miles seg - distance_miles part \<and>
           estimated_drive_time rem = estimated_drive_time seg - (11 - hours_driving s) \<and>
           distance_miles part + distance_miles rem = distance_miles seg \<and>
           estimated_drive_time part + estimated_drive_time rem = estimated_drive_time seg"
  using assms by (simp add: hos_body_def Let_def)

theorem split_conserves_witness:
  "segment_type leg420 = ''driving'' \<and> hours_since_break state_hd6 < 8
   \<and> estimated_drive_time leg420 > 11 - hours_driving state_hd6
   \<and> (\<exists>s' part rem. hos_body leg420 state_hd6 = Inr s'
        \<and> result_segments s' = [part, \<lparr> segment_type = ''rest'', start_location = end_location part,
                      end_location = end_location part, distance_miles = 0,
                      estimated_drive_time = 10 \<rparr>]
        \<and> segment_queue s' = [rem]
        \<and> estimated_drive_time part = 5 \<and> distance_miles part = 300
        \<and> estimated_drive_time rem = 2 \<and> distance_miles rem = 120)"
proof -
  have h: "segment_type leg420 = ''driving''" "hours_since_break state_hd6 < 8"
    "estimated_drive_time leg420 > 11 - hours_driving state_hd6" "estimated_drive_time leg420 \<noteq> 0"
    by (simp_all add: leg420_def state_hd6_def)
  from split_conserves [OF h] obtain s' part rem where
    "hos_body leg420 state_hd6 = Inr s'"
    "result_segments s' = result_segments state_hd6 @
             [part, \<lparr> segment_type = ''rest'', start_location = end_location part,
                      end_location = end_location part, distance_miles = 0,
                      estimated_drive_time = 10 \<rparr>]"
    "segment_queue s' = rem # segment_queue state_hd6"
    "estimated_drive_time part = 11 - hours_driving state_hd6"
    "distance_miles part =
             ((11 - hours_driving state_hd6) / estimated_drive_time leg420) * distance_miles leg420"
    "distance_miles rem = distance_miles leg420 - distance_miles part"
    "estimated_drive_time rem = estimated_drive_time leg420 - (11 - hours_driving state_hd6)"
    by (elim exE conjE)
  then have "hos_body leg420 state_hd6 = Inr s'
        \<and> result_segments s' = [part, \<lparr> segment_type = ''rest'', start_location = end_location part,
                      end_location = end_location part, distance_miles = 0,
                      estimated_drive_time = 10 \<rparr>]
        \<and> segment_queue s' = [rem]
        \<and> estimated_drive_time part = 5 \<and> distance_miles part = 300
        \<and> estimated_drive_time rem = 2 \<and> distance_miles rem = 120"
    by (simp add: leg420_def state_hd6_def)
  then have "\<exists>s' part rem. hos_body leg420 state_hd6 = Inr s'
        \<and> result_segments s' = [part, \<lparr> segment_type = ''rest'', start_location = end_location part,
                      end_location = end_location part, distance_miles = 0,
                      estimated_drive_time = 10 \<rparr>]
        \<and> segment_queue s' = [rem]
        \<and> estimated_drive_time part = 5 \<and> distance_miles part = 300
        \<and> estimated_drive_time rem = 2 \<and> distance_miles rem = 120"
    by (intro exI)
  with h(1-3) show ?thesis by (intro conjI)
qed

lemma state_at_limit_reached:
  "hos_steps 2 (hos_init [leg660, leg60] 0) = Inr state_at_limit"
  by (simp add: numeral_2_eq_2 hos_init_def hos_body_def Let_def leg660_def leg60_def state_at_limit_def)

lemma empty_split_plan:
  "apply_hos_regulations [leg660, leg60] 0 =
     Some (Inr (result_segments state_after_empty_split @ segment_queue state_after_empty_split))"
  by (simp add: apply_hos_regulations_def hos_init_def hos_loop.simps hos_body_def Let_def
      leg660_def leg60_def rest_stop_name_def state_after_empty_split_def)

section \<open>The log partitioner\<close>

lemma last_second: "dt_time (datetime_combine_min (d + 1) - usec_per_second) = usec_per_day - usec_per_second"
proof -
  have "(d + 1) * usec_per_day - usec_per_second = (usec_per_day - usec_per_second) + d * usec_per_day"
    by (simp add: algebra_simps)
  then show ?thesis
    by (simp add: dt_time_def datetime_combine_min_def) (simp add: usec_per_day_def usec_per_second_def)
qed

lemma full_day_entries_last:
  "n > 0 \<Longrightarrow> \<exists>es. full_day_entries st loc cd n =
     es @ [\<lparr> date = cd + int n - 1, status = st, start_time = 0,
             end_time = usec_per_day - usec_per_second, location = loc \<rparr>]"
proof (induction n arbitrary: cd)
  case 0
  then show ?case by simp
next
  case (Suc n)
  show ?case
  proof (cases n)
    case 0
    then show ?thesis by (simp add: Let_def last_second)
  next
    case (Suc m)
    then have "n > 0" by simp
    from Suc.IH [OF this, of "cd + 1"] obtain es where
      "full_day_entries st loc (cd + 1) n =
         es @ [\<lparr> date = cd + 1 + int n - 1, status = st, start_time = 0,
             end_time = usec_per_day - usec_per_second, location = loc \<rparr>]" ..
    then have "full_day_entries st loc cd (Suc n) =
       (\<lparr> date = cd, status = st, start_time = 0,
           end_time = usec_per_day - usec_per_second, location = loc \<rparr> # es) @
       [\<lparr> date = cd + int (Suc n) - 1, status = st, start_time = 0,
             end_time = usec_per_day - usec_per_second, location = loc \<rparr>]"
      by (simp add: Let_def last_second)
    then show ?thesis by (rule exI)
  qed
qed

lemma date_before_midnight:
  assumes "c < e" "dt_time e = 0"
  shows "dt_date c < dt_date e"
proof -
  have pos: "0 < usec_per_day" by (simp add: usec_per_day_def)
  from assms(2) have "e = dt_date e * usec_per_day"
    by (simp add: dt_time_def dt_date_def mod_eq_0_iff_dvd)
  with assms(1) have "c < dt_date e * usec_per_day" by simp
  moreover have "dt_date c * usec_per_day \<le> c"
    using div_mult_mod_eq [of c usec_per_day] pos_mod_sign [OF pos, of c]
    unfolding dt_date_def by linarith
  ultimately have "dt_date c * usec_per_day < dt_date e * usec_per_day" by simp
  then show ?thesis
    using pos by (simp add: mult_less_cancel_right)
qed

text \<open>
  C10, as the code has it. For every segment of positive duration whose end falls exactly on
  a midnight, the log partitioner takes the midnight-crossing branch: the last record it
  makes for the segment is dated the end date and runs from 00:00:00 to 00:00:00, and the
  record before it, for the same segment, is dated the day before and ends at 23:59:59.
\<close>

theorem midnight_end_records:
  assumes pos: "0 < timedelta_hours (estimated_drive_time seg)"
    and mid: "dt_time (current_datetime + timedelta_hours (estimated_drive_time seg)) = 0"
  shows "\<exists>entries prev.
           generate_logs_body current_datetime seg =
             (entries @
              [prev,
               \<lparr> date = dt_date (current_datetime + timedelta_hours (estimated_drive_time seg)),
                 status = segment_type_to_status (segment_type seg),
                 start_time = 0, end_time = 0, location = start_location seg \<rparr>],
              current_datetime + timedelta_hours (estimated_drive_time seg)) \<and>
           date prev = dt_date (current_datetime + timedelta_hours (estimated_drive_time seg)) - 1 \<and>
           end_time prev = usec_per_day - usec_per_second"
proof -
  let ?e = "current_datetime + timedelta_hours (estimated_drive_time seg)"
  let ?st = "segment_type_to_status (segment_type seg)"
  let ?final = "\<lparr> date = dt_date ?e, status = ?st, start_time = 0, end_time = 0,
                  location = start_location seg \<rparr>"
  let ?first = "\<lparr> date = dt_date current_datetime, status = ?st,
                start_time = dt_time current_datetime, end_time = usec_per_day - usec_per_second,
                location = start_location seg \<rparr>"
  let ?n = "nat (dt_date ?e - (dt_date current_datetime + 1))"
  from pos have "current_datetime < ?e" by simp
  from date_before_midnight [OF this mid] have lt: "dt_date current_datetime < dt_date ?e" .
  then have body: "generate_logs_body current_datetime seg =
     (?first # full_day_entries ?st (start_location seg) (dt_date current_datetime + 1) ?n @ [?final], ?e)"
    by (simp add: generate_logs_body_def Let_def mid last_second)
  show ?thesis
  proof (cases "?n = 0")
    case True
    with lt have "dt_date current_datetime = dt_date ?e - 1" by simp
    with True body have "generate_logs_body current_datetime seg = ([] @ [?first, ?final], ?e) \<and>
        date ?first = dt_date ?e - 1 \<and> end_time ?first = usec_per_day - usec_per_second"
      by simp
    then show ?thesis by blast
  next
    case False
    then have "?n > 0" by simp
    from full_day_entries_last [OF this, of ?st "start_location seg" "dt_date current_datetime + 1"]
    obtain es where es: "full_day_entries ?st (start_location seg) (dt_date current_datetime + 1) ?n =
       es @ [\<lparr> date = dt_date current_datetime + 1 + int ?n - 1, status = ?st, start_time = 0,
             end_time = usec_per_day - usec_per_second, location = start_location seg \<rparr>]" ..
    let ?prev = "\<lparr> date = dt_date current_datetime + 1 + int ?n - 1, status = ?st, start_time = 0,
             end_time = usec_per_day - usec_per_second, location = start_location seg \<rparr>"
    have d: "date ?prev = dt_date ?e - 1" using lt by simp
    have "generate_logs_body current_datetime seg = ((?first # es) @ [?prev, ?final], ?e)"
      by (simp add: body es)
    with d have "generate_logs_body current_datetime seg = ((?first # es) @ [?prev, ?final], ?e) \<and>
        date ?prev = dt_date ?e - 1 \<and> end_time ?prev = usec_per_day - usec_per_second"
      by simp
    then show ?thesis by blast
  qed
qed

lemma timedelta_hours_2: "timedelta_hours 2 = 7200000000"
  by (simp add: timedelta_hours_def round_half_even_def usec_per_hour_def Let_def)

theorem midnight_end_records_witness:
  "0 < timedelta_hours (estimated_drive_time leg_2h)
   \<and> dt_time (79200000000 + timedelta_hours (estimated_drive_time leg_2h)) = 0
   \<and> (\<exists>entries prev.
         generate_logs_body 79200000000 leg_2h =
           (entries @
            [prev,
             \<lparr> date = 1, status = ''driving'', start_time = 0, end_time = 0,
               location = ''A'' \<rparr>],
            86400000000) \<and>
         date prev = 0 \<and> end_time prev = 86399000000)"
proof -
  have td: "timedelta_hours (estimated_drive_time leg_2h) = 7200000000"
    by (simp add: leg_2h_def timedelta_hours_2)
  have h1: "0 < timedelta_hours (estimated_drive_time leg_2h)"
    by (simp add: td)
  have h2: "dt_time (79200000000 + timedelta_hours (estimated_drive_time leg_2h)) = 0"
    by (simp add: td dt_time_def usec_per_day_def)
  have st: "segment_type_to_status (segment_type leg_2h) = ''driving''"
    by (simp add: leg_2h_def segment_type_to_status_def)
  have dd: "dt_date 86400000000 = 1"
    by (simp add: dt_date_def usec_per_day_def)
  from midnight_end_records [OF h1 h2]
  have "\<exists>entries prev.
         generate_logs_body 79200000000 leg_2h =
           (entries @
            [prev,
             \<lparr> date = 1, status = ''driving'', start_time = 0, end_time = 0,
               location = ''A'' \<rparr>],
            86400000000) \<and>
         date prev = 0 \<and> end_time prev = 86399000000"
    by (simp add: td st dd usec_per_day_def usec_per_second_def) (simp add: leg_2h_def)
  with h1 h2 show ?thesis by (intro conjI)
qed

text \<open>
  C10, as stated, fails for a segment without duration that starts at midnight: its end falls
  on that midnight, the two dates are equal, and the same-day branch makes a single record,
  with no record ending at 23:59:59 before it.
\<close>

theorem midnight_end_records_counterexample:
  "dt_time (0 + timedelta_hours (estimated_drive_time leg_zero)) = 0
   \<and> generate_logs_body 0 leg_zero =
       ([\<lparr> date = 0, status = ''driving'', start_time = 0, end_time = 0,
           location = ''A'' \<rparr>], 0)"
  by (simp add: generate_logs_body_def leg_zero_def timedelta_hours_def round_half_even_def
      dt_time_def dt_date_def segment_type_to_status_def Let_def)

section \<open>The planning entry point\<close>

lemma save_rows_db_ok: "save_rows db_ok xs = (None, xs)"
  by (induction xs) (simp_all add: db_ok_def)

lemma generate_logs_saving_db_ok:
  "logs_in_range t segs \<Longrightarrow> generate_logs_saving db_ok t segs = (None, generate_logs_loop t segs)"
proof (induction segs arbitrary: t)
  case Nil
  show ?case by simp
next
  case (Cons seg segs)
  obtain es e where body: "generate_logs_body t seg = (es, e)"
    by (cases "generate_logs_body t seg") auto
  then have e: "e = t + timedelta_hours (estimated_drive_time seg)"
    by (simp add: generate_logs_body_def Let_def)
  from Cons.prems have "logs_in_range e segs" "\<not> log_overflow t seg"
    by (simp_all add: e)
  then show ?case
    by (simp add: body save_rows_db_ok Cons.IH)
qed

lemma timedelta_hours_1: "timedelta_hours 1 = 3600000000"
  by (simp add: timedelta_hours_def round_half_even_def usec_per_hour_def Let_def)

lemma plan_trip_100_fuel: "add_fuel_stops plan_trip_100 = plan_trip_100"
  by (simp add: add_fuel_stops_def add_fuel_stops_body_def plan_trip_100_def)

lemma plan_trip_100_hos: "apply_hos_regulations plan_trip_100 100 = Some (Inr plan_trip_100)"
  by (simp add: apply_hos_regulations_def hos_init_def hos_loop.simps hos_body_def Let_def
      plan_trip_100_def)

lemma plan_trip_100_logs: "generate_logs 36000000000 plan_trip_100 = logs_trip_100"
  by (simp add: generate_logs_def generate_logs_body_def plan_trip_100_def logs_trip_100_def
      timedelta_hours_1 dt_time_def dt_date_def segment_type_to_status_def Let_def
      usec_per_day_def usec_per_hour_def)

lemma plan_trip_100_in_range: "logs_in_range 36000000000 plan_trip_100"
  by (simp add: plan_trip_100_def log_overflow_def timedelta_hours_1 Let_def datetime_max_def
      dt_date_def usec_per_day_def)

lemma plan_route_trip_100:
  "plan_route geocode_all miles_60 db_ok db_ok 36000000000 trip_100
     = Some (Inr (plan_trip_100, logs_trip_100))"
proof -
  have "plan_route geocode_all miles_60 db_ok db_ok 36000000000 trip_100 =
        (case apply_hos_regulations (add_fuel_stops plan_trip_100) 100 of
           None \<Rightarrow> None
         | Some (Inl e) \<Rightarrow> Some (Inl (Exception_text e, [], []))
         | Some (Inr processed_segments) \<Rightarrow>
             (case save_rows db_ok processed_segments of
                (Some e, saved) \<Rightarrow> Some (Inl (Exception_text e, saved, []))
              | (None, saved) \<Rightarrow>
                  (case generate_logs_saving db_ok (36000000000 - 36000000000 mod usec_per_hour) saved of
                     (Some e, logs) \<Rightarrow> Some (Inl (Exception_text e, saved, logs))
                   | (None, logs) \<Rightarrow> Some (Inr (saved, logs)))))"
    by (simp add: plan_route_def geocode_all_def miles_60_def trip_100_def plan_trip_100_def Let_def)
  moreover have "36000000000 - 36000000000 mod usec_per_hour = 36000000000"
    by (simp add: usec_per_hour_def)
  moreover have "generate_logs_loop 36000000000 plan_trip_100 = logs_trip_100"
    using plan_trip_100_logs by (simp add: generate_logs_def usec_per_hour_def)
  ultimately show ?thesis
    by (simp add: plan_trip_100_fuel plan_trip_100_hos save_rows_db_ok
        generate_logs_saving_db_ok [OF plan_trip_100_in_range])
qed

text \<open>
  C8, as the code has it. \<open>plan_route\<close> has no check of the starting cycle hours: for every
  value of \<open>current_hours_used\<close>, inside the range from 0 to 70 or outside it, the request
  has the same answer and leaves the same rows saved as for any other value.
\<close>

theorem plan_route_ignores_hours_used:
  "plan_route geocode miles create_segment create_log now (t\<lparr> trip_current_hours_used := h \<rparr>)
     = plan_route geocode miles create_segment create_log now t"
  by (simp add: plan_route_def Let_def
      apply_hos_regulations_cycle [of _ h "trip_current_hours_used t"]
      split: option.splits sum.splits)

text \<open>
  C8, as stated, fails: with 100 cycle hours already used, a value outside the range from
  0 to 70, \<open>plan_route\<close> succeeds and saves a plan and its log.
\<close>

theorem plan_route_no_validation_counterexample:
  "\<not> (0 \<le> trip_current_hours_used trip_100 \<and> trip_current_hours_used trip_100 \<le> 70)
   \<and> plan_route geocode_all miles_60 db_ok db_ok 36000000000 trip_100
       = Some (Inr (plan_trip_100, logs_trip_100))"
  by (simp add: plan_route_trip_100) (simp add: trip_100_def)

section \<open>A split with no drive time left\<close>

text \<open>The numbers of this run are double-precision numbers, and no step of it is rounded.\<close>

lemma empty_split_plan_double:
  "apply_hos_regulations_double [leg660, leg60] 0 =
     Some (Inr (result_segments state_after_empty_split @ segment_queue state_after_empty_split))"
  by (simp add: apply_hos_regulations_double_def hos_init_def hos_loop_double.simps
      hos_body_double_def Let_def leg660_def leg60_def rest_stop_name_def
      state_after_empty_split_def round_double_small round_double_11)

lemma plan_660_fuel:
  "add_fuel_stops [leg660, pickup1, leg60, dropoff1] = [leg660, pickup1, leg60, dropoff1]"
  by (simp add: add_fuel_stops_def add_fuel_stops_body_def leg660_def pickup1_def leg60_def
      dropoff1_def)

lemma plan_660_hos:
  "apply_hos_regulations [leg660, pickup1, leg60, dropoff1] 0 = Some (Inr plan_660)"
  by (simp add: apply_hos_regulations_def hos_init_def hos_loop.simps hos_body_def Let_def
      leg660_def pickup1_def leg60_def dropoff1_def rest_stop_name_def plan_660_def)

lemma timedelta_hours_plan_660:
  "timedelta_hours 11 = 39600000000" "timedelta_hours 1 = 3600000000"
  "timedelta_hours (1 / 2) = 1800000000" "timedelta_hours 0 = 0"
  "timedelta_hours 10 = 36000000000"
  by (simp_all add: timedelta_hours_def round_half_even_def usec_per_hour_def Let_def)

lemma plan_660_in_range: "logs_in_range 0 plan_660"
  by (simp add: plan_660_def leg660_def pickup1_def dropoff1_def log_overflow_def
      timedelta_hours_plan_660 Let_def datetime_max_def dt_date_def usec_per_day_def)

lemma plan_route_660:
  "plan_route geocode_all miles_660 db_ok db_ok 0 trip_0
     = Some (Inr (plan_660, generate_logs 0 plan_660))"
proof -
  have "plan_route geocode_all miles_660 db_ok db_ok 0 trip_0 =
        (case apply_hos_regulations (add_fuel_stops [leg660, pickup1, leg60, dropoff1]) 0 of
           None \<Rightarrow> None
         | Some (Inl e) \<Rightarrow> Some (Inl (Exception_text e, [], []))
         | Some (Inr processed_segments) \<Rightarrow>
             (case save_rows db_ok processed_segments of
                (Some e, saved) \<Rightarrow> Some (Inl (Exception_text e, saved, []))
              | (None, saved) \<Rightarrow>
                  (case generate_logs_saving db_ok (0 - 0 mod usec_per_hour) saved of
                     (Some e, logs) \<Rightarrow> Some (Inl (Exception_text e, saved, logs))
                   | (None, logs) \<Rightarrow> Some (Inr (saved, logs)))))"
    by (simp add: plan_route_def geocode_all_def miles_660_def trip_0_def
        leg660_def pickup1_def leg60_def dropoff1_def Let_def)
  then show ?thesis
    by (simp add: plan_660_fuel plan_660_hos save_rows_db_ok
        generate_logs_saving_db_ok [OF plan_660_in_range] generate_logs_def)
qed

text \<open>
  C5 at a failing input. The legs are a drive of 660 miles in 11 hours and a drive of 60
  miles in 1 hour; \<open>plan_route\<close> builds them, with the pickup between them, from 660 miles
  to the pickup and 60 miles from there to the dropoff. After the first leg and the
  half-hour break the segmenter is in a state with \<open>hours_driving = 11\<close>. There the second
  leg takes the split branch with a remaining drive time of 0: the branch emits a driving
  segment of 0 miles and 0 hours and a ten-hour rest, and puts back a remainder that is the
  whole leg, 60 miles and 1 hour; the segment of 0 miles is part of the plan that is returned
  and saved. The run is the same in double precision.
\<close>

theorem split_at_limit_no_progress:
  "hos_steps 2 (hos_init [leg660, leg60] 0) = Inr state_at_limit
   \<and> segment_queue state_at_limit = [leg60]
   \<and> segment_type leg60 = ''driving''
   \<and> hours_since_break state_at_limit < 8
   \<and> estimated_drive_time leg60 > 11 - hours_driving state_at_limit
   \<and> 11 - hours_driving state_at_limit = 0
   \<and> hos_body leg60 (state_at_limit\<lparr> segment_queue := [] \<rparr>) = Inr state_after_empty_split
   \<and> result_segments state_after_empty_split = result_segments state_at_limit @
       [\<lparr> segment_type = ''driving'', start_location = ''B'',
          end_location = ''Rest Stop (B to C)'', distance_miles = 0,
          estimated_drive_time = 0 \<rparr>,
        \<lparr> segment_type = ''rest'', start_location = ''Rest Stop (B to C)'',
          end_location = ''Rest Stop (B to C)'', distance_miles = 0,
          estimated_drive_time = 10 \<rparr>]
   \<and> segment_queue state_after_empty_split =
       [\<lparr> segment_type = ''driving'', start_location = ''Rest Stop (B to C)'',
          end_location = ''C'', distance_miles = distance_miles leg60,
          estimated_drive_time = estimated_drive_time leg60 \<rparr>]
   \<and> apply_hos_regulations [leg660, leg60] 0 =
       Some (Inr (result_segments state_after_empty_split @ segment_queue state_after_empty_split))
   \<and> apply_hos_regulations_double [leg660, leg60] 0 = apply_hos_regulations [leg660, leg60] 0
   \<and> plan_route geocode_all miles_660 db_ok db_ok 0 trip_0
       = Some (Inr (plan_660, generate_logs 0 plan_660))
   \<and> plan_660 ! 3 =
       \<lparr> segment_type = ''driving'', start_location = ''B'',
         end_location = ''Rest Stop (B to C)'', distance_miles = 0,
         estimated_drive_time = 0 \<rparr>"
proof -
  have "hos_body leg60 (state_at_limit\<lparr> segment_queue := [] \<rparr>) = Inr state_after_empty_split"
    by (simp add: hos_body_def Let_def leg60_def state_at_limit_def state_after_empty_split_def
        rest_stop_name_def)
  moreover have "plan_660 ! 3 =
       \<lparr> segment_type = ''driving'', start_location = ''B'',
         end_location = ''Rest Stop (B to C)'', distance_miles = 0,
         estimated_drive_time = 0 \<rparr>"
    by (simp add: plan_660_def numeral_3_eq_3)
  ultimately show ?thesis
    by (simp add: state_at_limit_reached empty_split_plan empty_split_plan_double plan_route_660)
      (simp add: state_at_limit_def state_after_empty_split_def leg60_def)
qed

section \<open>The log partitioner on whole seconds\<close>

text \<open>
  When every duration is a non-negative whole number of seconds, the log entries run forward
  within their days, each follows the one before it, the first starts at the hour-truncated
  start and the last ends at that instant plus the sum of the durations.
\<close>

lemma contiguous_append:
  "contiguous xs \<Longrightarrow> contiguous ys \<Longrightarrow> (xs \<noteq> [] \<Longrightarrow> ys \<noteq> [] \<Longrightarrow> follows (last xs) (hd ys)) \<Longrightarrow>
   contiguous (xs @ ys)"
proof (induction xs)
  case Nil
  then show ?case by simp
next
  case (Cons x xs)
  show ?case
  proof (cases xs)
    case Nil
    with Cons.prems show ?thesis by (cases ys) simp_all
  next
    case (Cons x' xs')
    with Cons.prems have "contiguous xs" "follows x x'" by simp_all
    moreover have "xs \<noteq> [] \<Longrightarrow> ys \<noteq> [] \<Longrightarrow> follows (last xs) (hd ys)"
      using Cons.prems(3) by simp
    ultimately have "contiguous (xs @ ys)" "follows x x'"
      using Cons.prems(2) by (simp_all add: Cons.IH)
    then show ?thesis by (simp add: Cons)
  qed
qed

lemma usec_facts:
  "0 < usec_per_day" "0 < usec_per_second" "usec_per_second dvd usec_per_day"
  "usec_per_second < usec_per_day"
  by (simp_all add: usec_per_day_def usec_per_second_def)

lemma dt_split: "t = dt_date t * usec_per_day + dt_time t"
  by (simp add: dt_date_def dt_time_def)

lemma dt_time_range: "0 \<le> dt_time t" "dt_time t < usec_per_day"
  using usec_facts(1) by (simp_all add: dt_time_def)

lemma dt_time_whole:
  assumes "usec_per_second dvd t"
  shows "dt_time t \<le> usec_per_day - usec_per_second"
proof -
  have "usec_per_second dvd dt_time t"
    unfolding dt_time_def using assms usec_facts(3) by (simp add: dvd_mod)
  then obtain k where k: "dt_time t = usec_per_second * k" ..
  obtain m where m: "usec_per_day = usec_per_second * m"
    using usec_facts(3) ..
  from dt_time_range(2) [of t] have "usec_per_second * k < usec_per_second * m"
    by (simp add: k [symmetric] m [symmetric])
  then have "k < m" using usec_facts(2) by (simp add: mult_less_cancel_left)
  then have "k \<le> m - 1" by simp
  then have "usec_per_second * k \<le> usec_per_second * (m - 1)"
    using usec_facts(2) by (simp add: mult_le_cancel_left)
  then show ?thesis by (simp add: k m algebra_simps)
qed

lemma full_day_entries_ok:
  "r \<in> set (full_day_entries st loc cd n) \<Longrightarrow> entry_ok r"
proof (induction n arbitrary: cd)
  case 0
  then show ?case by simp
next
  case (Suc n)
  then show ?case
    using usec_facts by (auto simp add: Let_def last_second entry_ok_def)
qed

lemma full_day_chain:
  "date r = cd + int n \<Longrightarrow> start_time r = 0 \<Longrightarrow>
   contiguous (full_day_entries st loc cd n @ [r]) \<and>
   date (hd (full_day_entries st loc cd n @ [r])) = cd \<and>
   start_time (hd (full_day_entries st loc cd n @ [r])) = 0"
proof (induction n arbitrary: cd)
  case 0
  then show ?case by simp
next
  case (Suc n)
  let ?tl = "full_day_entries st loc (cd + 1) n @ [r]"
  from Suc.prems have "date r = (cd + 1) + int n" by simp
  from Suc.IH [OF this Suc.prems(2)]
  have ih: "contiguous ?tl" "date (hd ?tl) = cd + 1" "start_time (hd ?tl) = 0" by simp_all
  have ne: "?tl \<noteq> []" by simp
  then obtain x xs where x: "?tl = x # xs" by (cases ?tl) auto
  let ?h = "\<lparr> date = cd, status = st, start_time = 0,
              end_time = usec_per_day - usec_per_second, location = loc \<rparr>"
  have "follows ?h x" using ih(2,3) by (simp add: follows_def x)
  with ih(1) have "contiguous (?h # ?tl)" by (simp add: x)
  then show ?case by (simp add: Let_def last_second)
qed

lemma dt_date_mono: "t \<le> e \<Longrightarrow> dt_date t \<le> dt_date e"
  by (simp add: dt_date_def zdiv_mono1 usec_facts)

lemma generate_logs_body_tiles:
  assumes whole: "usec_per_second dvd t"
    and nonneg: "0 \<le> timedelta_hours (estimated_drive_time seg)"
    and body: "generate_logs_body t seg = (es, e)"
  shows "e = t + timedelta_hours (estimated_drive_time seg) \<and> es \<noteq> [] \<and>
         (\<forall>r\<in>set es. entry_ok r) \<and> contiguous es \<and>
         date (hd es) = dt_date t \<and> start_time (hd es) = dt_time t \<and>
         date (last es) = dt_date e \<and> end_time (last es) = dt_time e"
proof -
  let ?e = "t + timedelta_hours (estimated_drive_time seg)"
  let ?st = "segment_type_to_status (segment_type seg)"
  from body have e: "e = ?e" by (simp add: generate_logs_body_def Let_def)
  from nonneg have le: "t \<le> ?e" by simp
  show ?thesis
  proof (cases "dt_date t = dt_date ?e")
    case True
    from body True have es: "es = [\<lparr> date = dt_date t, status = ?st,
              start_time = dt_time t, end_time = dt_time ?e, location = start_location seg \<rparr>]"
      by (auto simp add: generate_logs_body_def Let_def)
    have "dt_time t \<le> dt_time ?e"
      using le dt_split [of t] dt_split [of ?e] True by simp
    then show ?thesis
      using dt_time_range [of t] dt_time_range [of ?e] True
      by (simp add: es e entry_ok_def)
  next
    case False
    with dt_date_mono [OF le] have lt: "dt_date t < dt_date ?e" by simp
    let ?first = "\<lparr> date = dt_date t, status = ?st, start_time = dt_time t,
                    end_time = usec_per_day - usec_per_second, location = start_location seg \<rparr>"
    let ?final = "\<lparr> date = dt_date ?e, status = ?st, start_time = 0, end_time = dt_time ?e,
                    location = start_location seg \<rparr>"
    let ?n = "nat (dt_date ?e - (dt_date t + 1))"
    let ?full = "full_day_entries ?st (start_location seg) (dt_date t + 1) ?n"
    from body False have es: "es = ?first # ?full @ [?final]"
      by (auto simp add: generate_logs_body_def Let_def last_second)
    have d: "date ?final = (dt_date t + 1) + int ?n" using lt by simp
    from full_day_chain [OF d, of ?st "start_location seg"]
    have ch: "contiguous (?full @ [?final])" "date (hd (?full @ [?final])) = dt_date t + 1"
      "start_time (hd (?full @ [?final])) = 0" by simp_all
    obtain x xs where x: "?full @ [?final] = x # xs" by (cases "?full @ [?final]") auto
    have "follows ?first x" using ch(2,3) by (simp add: follows_def x)
    with ch(1) have c: "contiguous es" by (simp add: es x)
    have ok1: "entry_ok ?first"
      using dt_time_whole [OF whole] dt_time_range [of t] usec_facts by (simp add: entry_ok_def)
    have ok2: "entry_ok ?final"
      using dt_time_range [of ?e] by (simp add: entry_ok_def)
    have ok: "\<forall>r\<in>set es. entry_ok r"
      using ok1 ok2 full_day_entries_ok by (auto simp add: es)
    show ?thesis
      using c ok by (simp add: es e)
  qed
qed

lemma generate_logs_loop_tiles:
  assumes "usec_per_second dvd t"
    and "\<forall>seg\<in>set segs. 0 \<le> timedelta_hours (estimated_drive_time seg) \<and>
           usec_per_second dvd timedelta_hours (estimated_drive_time seg)"
  shows "(\<forall>r\<in>set (generate_logs_loop t segs). entry_ok r) \<and>
         contiguous (generate_logs_loop t segs) \<and>
         (segs \<noteq> [] \<longrightarrow>
            generate_logs_loop t segs \<noteq> [] \<and>
            date (hd (generate_logs_loop t segs)) = dt_date t \<and>
            start_time (hd (generate_logs_loop t segs)) = dt_time t \<and>
            date (last (generate_logs_loop t segs)) = dt_date (t + total_timedelta segs) \<and>
            end_time (last (generate_logs_loop t segs)) = dt_time (t + total_timedelta segs))"
  using assms
proof (induction segs arbitrary: t)
  case Nil
  then show ?case by simp
next
  case (Cons seg segs)
  obtain es e where body: "generate_logs_body t seg = (es, e)"
    by (cases "generate_logs_body t seg") auto
  from Cons.prems have nn: "0 \<le> timedelta_hours (estimated_drive_time seg)"
    and wh: "usec_per_second dvd timedelta_hours (estimated_drive_time seg)" by simp_all
  from generate_logs_body_tiles [OF Cons.prems(1) nn body]
  have b: "e = t + timedelta_hours (estimated_drive_time seg)" "es \<noteq> []"
    "\<forall>r\<in>set es. entry_ok r" "contiguous es"
    "date (hd es) = dt_date t" "start_time (hd es) = dt_time t"
    "date (last es) = dt_date e" "end_time (last es) = dt_time e" by simp_all
  have we: "usec_per_second dvd e" using Cons.prems(1) wh by (simp add: b(1))
  from Cons.prems(2) have rest: "\<forall>seg\<in>set segs. 0 \<le> timedelta_hours (estimated_drive_time seg) \<and>
           usec_per_second dvd timedelta_hours (estimated_drive_time seg)" by simp
  note ih = Cons.IH [OF we rest]
  let ?tl = "generate_logs_loop e segs"
  have loop: "generate_logs_loop t (seg # segs) = es @ ?tl" by (simp add: body)
  have link: "follows (last es) (hd ?tl)" if "?tl \<noteq> []"
  proof -
    from that have "segs \<noteq> []" by (cases segs) auto
    with ih have "date (hd ?tl) = dt_date e" "start_time (hd ?tl) = dt_time e" by simp_all
    then show ?thesis by (simp add: follows_def b(7,8))
  qed
  have c: "contiguous (es @ ?tl)"
    using b(4) ih link by (intro contiguous_append) simp_all
  have ok: "\<forall>r\<in>set (es @ ?tl). entry_ok r" using b(3) ih by auto
  have l: "date (last (es @ ?tl)) = dt_date (t + total_timedelta (seg # segs)) \<and>
           end_time (last (es @ ?tl)) = dt_time (t + total_timedelta (seg # segs))"
  proof (cases "segs = []")
    case True
    then show ?thesis using b by simp
  next
    case False
    with ih have "?tl \<noteq> []" "date (last ?tl) = dt_date (e + total_timedelta segs)"
      "end_time (last ?tl) = dt_time (e + total_timedelta segs)" by simp_all
    then show ?thesis by (simp add: b(1) add.assoc)
  qed
  show ?case
    unfolding loop using c ok l b(2,5,6) by simp
qed

lemma generate_logs_tiles:
  assumes "\<forall>seg\<in>set segs. 0 \<le> timedelta_hours (estimated_drive_time seg) \<and>
             usec_per_second dvd timedelta_hours (estimated_drive_time seg)"
  shows "(\<forall>r\<in>set (generate_logs now segs). entry_ok r) \<and>
         contiguous (generate_logs now segs) \<and>
         (segs \<noteq> [] \<longrightarrow>
            generate_logs now segs \<noteq> [] \<and>
            date (hd (generate_logs now segs)) = dt_date (now - now mod usec_per_hour) \<and>
            start_time (hd (generate_logs now segs)) = dt_time (now - now mod usec_per_hour) \<and>
            date (last (generate_logs now segs)) =
              dt_date (now - now mod usec_per_hour + total_timedelta segs) \<and>
            end_time (last (generate_logs now segs)) =
              dt_time (now - now mod usec_per_hour + total_timedelta segs))"
proof -
  have "usec_per_second dvd usec_per_hour"
    by (simp add: usec_per_second_def usec_per_hour_def)
  moreover have "usec_per_hour dvd now - now mod usec_per_hour"
    by (simp add: dvd_minus_mod)
  ultimately have "usec_per_second dvd now - now mod usec_per_hour"
    by (rule dvd_trans)
  from generate_logs_loop_tiles [OF this assms] show ?thesis
    by (simp add: generate_logs_def)
qed

lemma timedelta_hours_short: "timedelta_hours (7199 / 7200) = 3599500000"
  by (simp add: timedelta_hours_def round_half_even_def usec_per_hour_def Let_def)

lemma plan_short_logs: "generate_logs 83000000000 plan_short = logs_short"
  by (simp add: generate_logs_def generate_logs_body_def plan_short_def logs_short_def
      leg_short_def pickup1_def leg60_def dropoff1_def
      timedelta_hours_1 timedelta_hours_short dt_time_def dt_date_def datetime_combine_min_def
      segment_type_to_status_def Let_def usec_per_day_def usec_per_hour_def usec_per_second_def)

lemma plan_short_fuel: "add_fuel_stops plan_short = plan_short"
  by (simp add: add_fuel_stops_def add_fuel_stops_body_def plan_short_def
      leg_short_def pickup1_def leg60_def dropoff1_def)

lemma plan_short_hos: "apply_hos_regulations plan_short 0 = Some (Inr plan_short)"
  by (simp add: apply_hos_regulations_def hos_init_def hos_loop.simps hos_body_def Let_def
      plan_short_def leg_short_def pickup1_def leg60_def dropoff1_def)

lemma plan_short_in_range: "logs_in_range 82800000000 plan_short"
  by (simp add: plan_short_def leg_short_def pickup1_def leg60_def dropoff1_def
      log_overflow_def timedelta_hours_1 timedelta_hours_short Let_def datetime_max_def
      dt_date_def usec_per_day_def)

lemma plan_route_trip_0:
  "plan_route geocode_all miles_short db_ok db_ok 83000000000 trip_0
     = Some (Inr (plan_short, logs_short))"
proof -
  have "plan_route geocode_all miles_short db_ok db_ok 83000000000 trip_0 =
        (case apply_hos_regulations (add_fuel_stops plan_short) 0 of
           None \<Rightarrow> None
         | Some (Inl e) \<Rightarrow> Some (Inl (Exception_text e, [], []))
         | Some (Inr processed_segments) \<Rightarrow>
             (case save_rows db_ok processed_segments of
                (Some e, saved) \<Rightarrow> Some (Inl (Exception_text e, saved, []))
              | (None, saved) \<Rightarrow>
                  (case generate_logs_saving db_ok (83000000000 - 83000000000 mod usec_per_hour) saved of
                     (Some e, logs) \<Rightarrow> Some (Inl (Exception_text e, saved, logs))
                   | (None, logs) \<Rightarrow> Some (Inr (saved, logs)))))"
    by (simp add: plan_route_def geocode_all_def miles_short_def trip_0_def plan_short_def
        leg_short_def pickup1_def leg60_def dropoff1_def Let_def)
  moreover have "83000000000 - 83000000000 mod usec_per_hour = 82800000000"
    by (simp add: usec_per_hour_def)
  moreover have "generate_logs_loop 82800000000 plan_short = logs_short"
    using plan_short_logs by (simp add: generate_logs_def usec_per_hour_def)
  ultimately show ?thesis
    by (simp add: plan_short_fuel plan_short_hos save_rows_db_ok
        generate_logs_saving_db_ok [OF plan_short_in_range])
qed

text \<open>
  C2 at a failing input. The trip is planned at 23:03:20, so its log starts at 23:00:00; the
  drive to the pickup takes 59 minutes 59.5 seconds and the one-hour pickup starts at
  23:59:59.5 and crosses midnight. Its record for the first day runs from 23:59:59.5 to
  23:59:59: it ends before it starts and overlaps the record of the drive.
\<close>

theorem generate_logs_inverted_record:
  "plan_route geocode_all miles_short db_ok db_ok 83000000000 trip_0
     = Some (Inr (plan_short, logs_short))
   \<and> generate_logs 83000000000 plan_short = logs_short
   \<and> logs_short ! 1 =
       \<lparr> date = 0, status = ''on_duty_not_driving'', start_time = 86399500000,
         end_time = 86399000000, location = ''B'' \<rparr>
   \<and> end_time (logs_short ! 1) < start_time (logs_short ! 1)
   \<and> end_time (logs_short ! 1) < end_time (logs_short ! 0)
   \<and> \<not> entry_ok (logs_short ! 1)"
  by (simp add: plan_route_trip_0 plan_short_logs) (simp add: logs_short_def entry_ok_def)

end
